theory Spec2Isabelle
  imports Main
begin

section \<open>Strings and path names\<close>

text \<open>
  File names are strings of code points below 256. \<open>str_lower\<close> is Python's
  \<open>str.lower\<close> on that range: the ASCII capitals and the Latin-1 capitals
  (all of 192..222 but the multiplication sign 215) move up by 32.
\<close>

definition lower_char :: "char \<Rightarrow> char" where
  "lower_char c =
     (let n = (of_char c :: int)
      in if (65 \<le> n \<and> n \<le> 90) \<or> (192 \<le> n \<and> n \<le> 222 \<and> n \<noteq> 215)
         then char_of (n + 32) else c)"

definition str_lower :: "string \<Rightarrow> string" where
  "str_lower s = map lower_char s"

section \<open>Category classifier\<close>

subsection \<open>Extension tables of 02_watchdog_descargas.py\<close>

definition EXTENSIONES_TEMPORALES :: "string list" where
  "EXTENSIONES_TEMPORALES = [''.crdownload'', ''.part'', ''.tmp'']"

definition EXT_DOCS_watchdog :: "string list" where
  "EXT_DOCS_watchdog = [''.pdf'', ''.txt'', ''.doc'', ''.docx'', ''.ppt'', ''.pptx'',
     ''.vtt'', ''.odt'', ''.rtf'', ''.epub'', ''.md'', ''.srt'']"

definition EXT_IMG_watchdog :: "string list" where
  "EXT_IMG_watchdog = [''.jpg'', ''.jpeg'', ''.png'', ''.gif'', ''.bmp'', ''.tiff'', ''.webp'']"

definition EXT_VIDEO_watchdog :: "string list" where
  "EXT_VIDEO_watchdog = [''.mp4'', ''.mkv'', ''.avi'', ''.mov'', ''.wmv'', ''.flv'', ''.webm'']"

definition EXT_COMP_watchdog :: "string list" where
  "EXT_COMP_watchdog = [''.zip'', ''.rar'', ''.7z'', ''.gz'', ''.tar'', ''.bz2'', ''.xz'']"

definition EXT_DATOS_watchdog :: "string list" where
  "EXT_DATOS_watchdog = [''.xls'', ''.xlsx'', ''.xlsm'', ''.ods'', ''.csv'', ''.tsv'',
     ''.sql'', ''.sqlite'', ''.db'', ''.mdb'', ''.accdb'', ''.dump'', ''.bak'',
     ''.parquet'', ''.feather'', ''.orc'']"

definition EXT_SCRIPTS_watchdog :: "string list" where
  "EXT_SCRIPTS_watchdog = [''.py'', ''.ipynb'', ''.js'', ''.ts'', ''.json'', ''.rs'',
     ''.c'', ''.cpp'', ''.cxx'', ''.h'', ''.hpp'', ''.html'', ''.htm'', ''.css'',
     ''.sh'', ''.bat'', ''.ps1'']"

definition categoria_para_extension_watchdog :: "string \<Rightarrow> string" where
  "categoria_para_extension_watchdog sufijo0 =
     (let sufijo = str_lower sufijo0
      in if sufijo \<in> set EXT_DATOS_watchdog then ''datos''
         else if sufijo \<in> set EXT_DOCS_watchdog then ''documentos''
         else if sufijo \<in> set EXT_IMG_watchdog then ''imagenes''
         else if sufijo \<in> set EXT_VIDEO_watchdog then ''videos''
         else if sufijo \<in> set EXT_COMP_watchdog then ''comprimidos''
         else if sufijo \<in> set EXT_SCRIPTS_watchdog then ''scripts''
         else ''otros'')"

subsection \<open>Extension tables of 03_typer_organizador.py\<close>

definition EXT_DOCS_typer :: "string list" where
  "EXT_DOCS_typer = [''.pdf'', ''.txt'', ''.doc'', ''.docx'', ''.ppt'', ''.pptx'']"

definition EXT_IMG_typer :: "string list" where
  "EXT_IMG_typer = [''.jpg'', ''.jpeg'', ''.png'', ''.gif'', ''.bmp'', ''.tiff'', ''.webp'']"

definition EXT_VIDEO_typer :: "string list" where
  "EXT_VIDEO_typer = [''.mp4'', ''.mkv'', ''.avi'', ''.mov'', ''.wmv'', ''.flv'', ''.webm'']"

definition EXT_COMP_typer :: "string list" where
  "EXT_COMP_typer = [''.zip'', ''.rar'', ''.7z'', ''.gz'', ''.tar'', ''.bz2'', ''.xz'']"

definition EXT_DATOS_typer :: "string list" where
  "EXT_DATOS_typer = [''.xls'', ''.xlsx'', ''.xlsm'', ''.ods'', ''.csv'', ''.tsv'',
     ''.sql'', ''.sqlite'', ''.db'', ''.mdb'', ''.accdb'', ''.dump'', ''.bak'',
     ''.parquet'', ''.feather'', ''.orc'']"

definition EXT_SCRIPTS_typer :: "string list" where
  "EXT_SCRIPTS_typer = [''.py'', ''.ipynb'', ''.js'', ''.ts'', ''.rs'',
     ''.c'', ''.cpp'', ''.cxx'', ''.h'', ''.hpp'', ''.html'', ''.htm'', ''.css'',
     ''.sh'', ''.bat'', ''.ps1'']"

definition categoria_para_extension_typer :: "string \<Rightarrow> string" where
  "categoria_para_extension_typer sufijo0 =
     (let sufijo = str_lower sufijo0
      in if sufijo \<in> set EXT_DATOS_typer then ''datos''
         else if sufijo \<in> set EXT_DOCS_typer then ''documentos''
         else if sufijo \<in> set EXT_IMG_typer then ''imagenes''
         else if sufijo \<in> set EXT_VIDEO_typer then ''videos''
         else if sufijo \<in> set EXT_COMP_typer then ''comprimidos''
         else if sufijo \<in> set EXT_SCRIPTS_typer then ''scripts''
         else ''otros'')"

subsection \<open>The classifier as the specification words it\<close>

text \<open>
  The specification's reading: a priority list of (category, extension set) pairs is
  searched in order for the lowercased extension; the first set that holds it names the
  category, and \<open>otros\<close> ("other") is the default.
\<close>

fun first_match :: "(string \<times> string list) list \<Rightarrow> string \<Rightarrow> string" where
  "first_match [] e = ''otros''"
| "first_match ((c, exts) # rest) e = (if e \<in> set exts then c else first_match rest e)"

definition priority_watchdog :: "(string \<times> string list) list" where
  "priority_watchdog =
     [(''datos'', EXT_DATOS_watchdog), (''documentos'', EXT_DOCS_watchdog),
      (''imagenes'', EXT_IMG_watchdog), (''videos'', EXT_VIDEO_watchdog),
      (''comprimidos'', EXT_COMP_watchdog), (''scripts'', EXT_SCRIPTS_watchdog)]"

definition priority_typer :: "(string \<times> string list) list" where
  "priority_typer =
     [(''datos'', EXT_DATOS_typer), (''documentos'', EXT_DOCS_typer),
      (''imagenes'', EXT_IMG_typer), (''videos'', EXT_VIDEO_typer),
      (''comprimidos'', EXT_COMP_typer), (''scripts'', EXT_SCRIPTS_typer)]"

definition classify_spec :: "(string \<times> string list) list \<Rightarrow> string \<Rightarrow> string" where
  "classify_spec table extension = first_match table (str_lower extension)"

text \<open>The seven category labels, and the extensions only the watch-mode tables hold.\<close>

definition CATEGORIAS :: "string list" where
  "CATEGORIAS = [''datos'', ''documentos'', ''imagenes'', ''videos'', ''comprimidos'',
     ''scripts'', ''otros'']"

definition EXT_SOLO_WATCHDOG :: "string list" where
  "EXT_SOLO_WATCHDOG = [''.vtt'', ''.odt'', ''.rtf'', ''.epub'', ''.md'', ''.srt'', ''.json'']"

section \<open>Paths, as pathlib sees them\<close>

text \<open>
  A path is the list of its components below the filesystem root; \<open>p / c\<close> is
  \<open>p @ [c]\<close>. \<open>path_suffix\<close> and \<open>path_stem\<close> follow pathlib: the suffix starts at
  the last dot of the name, unless that dot is the first or the last character.
\<close>

type_synonym ruta = "string list"

definition rfind :: "char \<Rightarrow> string \<Rightarrow> int" where
  "rfind c s =
     (if c \<in> set s
      then int (length s) - 1 - int (length (takeWhile (\<lambda>x. x \<noteq> c) (rev s)))
      else - 1)"

definition path_name :: "ruta \<Rightarrow> string" where
  "path_name p = (if p = [] then [] else last p)"

definition path_suffix :: "ruta \<Rightarrow> string" where
  "path_suffix p =
     (let name = path_name p; i = rfind CHR ''.'' name
      in if 0 < i \<and> i < int (length name) - 1 then drop (nat i) name else [])"

definition path_stem :: "ruta \<Rightarrow> string" where
  "path_stem p =
     (let name = path_name p; i = rfind CHR ''.'' name
      in if 0 < i \<and> i < int (length name) - 1 then take (nat i) name else name)"

definition str_path :: "ruta \<Rightarrow> string" where
  "str_path p = (if p = [] then ''/'' else concat (map (\<lambda>c. ''/'' @ c) p))"

text \<open>
  Python's \<open>str\<close> of an integer, in decimal: \<open>str_pos\<close> renders a non-negative
  integer, \<open>str_int\<close> any integer and \<open>str_nat\<close> a counter.
\<close>

definition digit_char :: "int \<Rightarrow> char" where
  "digit_char d = char_of (48 + d)"

function str_pos :: "int \<Rightarrow> string" where
  "str_pos n = (if n < 10 then [digit_char n] else str_pos (n div 10) @ [digit_char (n mod 10)])"
  by pat_completeness auto
termination
  by (relation "measure nat") auto

declare str_pos.simps [simp del]

definition str_int :: "int \<Rightarrow> string" where
  "str_int i = (if i < 0 then ''-'' @ str_pos (- i) else str_pos i)"

definition str_nat :: "nat \<Rightarrow> string" where
  "str_nat n = str_int (int n)"

section \<open>Dates and the month table\<close>

text \<open>
  \<open>fecha\<close> is the calendar date that \<open>datetime.fromtimestamp(st_mtime).date()\<close> gives
  for a file. \<open>py_index\<close> is Python's list indexing: a negative index counts from the
  end and an index out of range raises \<open>IndexError\<close> (here \<open>None\<close>).
\<close>

record fecha =
  year :: int
  month :: int
  day :: int

definition MESES_ES :: "string list" where
  "MESES_ES = [''enero'', ''febrero'', ''marzo'', ''abril'', ''mayo'', ''junio'', ''julio'',
     ''agosto'', ''septiembre'', ''octubre'', ''noviembre'', ''diciembre'']"

definition py_index :: "'a list \<Rightarrow> int \<Rightarrow> 'a option" where
  "py_index xs i =
     (let n = int (length xs); j = (if i < 0 then n + i else i)
      in if 0 \<le> j \<and> j < n then Some (xs ! nat j) else None)"

definition quincena_de :: "fecha \<Rightarrow> string" where
  "quincena_de f = (if day f \<le> 15 then ''1-15'' else ''16-31'')"

section \<open>The filesystem\<close>

text \<open>
  The filesystem is an association list from paths to nodes, in directory order. A
  regular file carries the date of its modification time, its content and whether the
  operating system refuses to move it (a locked or protected file: \<open>PermissionError\<close>).
  The root directory \<open>[]\<close> always exists.
\<close>

datatype nodo = Carpeta (mtime: fecha) | Archivo (mtime: fecha) (contenido: string) (bloqueado: bool)

type_synonym sistema = "(ruta \<times> nodo) list"

datatype error = FileExistsError | NotADirectoryError | FileNotFoundError
  | PermissionError | IndexError | ShutilError | BadParameter | RecursionError

definition buscar :: "sistema \<Rightarrow> ruta \<Rightarrow> nodo option" where
  "buscar s p = (if p = [] then Some (Carpeta \<lparr>year = 1970, month = 1, day = 1\<rparr>) else map_of s p)"

definition existe :: "sistema \<Rightarrow> ruta \<Rightarrow> bool" where
  "existe s p = (buscar s p \<noteq> None)"

definition is_dir :: "sistema \<Rightarrow> ruta \<Rightarrow> bool" where
  "is_dir s p = (case buscar s p of Some (Carpeta _) \<Rightarrow> True | _ \<Rightarrow> False)"

definition is_file :: "sistema \<Rightarrow> ruta \<Rightarrow> bool" where
  "is_file s p = (case buscar s p of Some (Archivo _ _ _) \<Rightarrow> True | _ \<Rightarrow> False)"

definition iterdir :: "sistema \<Rightarrow> ruta \<Rightarrow> ruta list" where
  "iterdir s d = remdups (filter (\<lambda>p. p \<noteq> [] \<and> butlast p = d) (map fst s))"

text \<open>
  \<open>Path.mkdir(parents=True, exist_ok=True)\<close>: an existing directory is left alone, an
  existing regular file raises \<open>FileExistsError\<close>, a regular file among the ancestors
  raises \<open>NotADirectoryError\<close>, and missing ancestors are created first.
\<close>

function mkdir_parents :: "fecha \<Rightarrow> sistema \<Rightarrow> ruta \<Rightarrow> error + sistema" where
  "mkdir_parents d s p =
     (case buscar s p of
        Some (Carpeta _) \<Rightarrow> Inr s
      | Some (Archivo _ _ _) \<Rightarrow> Inl FileExistsError
      | None \<Rightarrow>
          if p = [] then Inl FileNotFoundError
          else (case mkdir_parents d s (butlast p) of
                  Inl e \<Rightarrow> Inl NotADirectoryError
                | Inr s' \<Rightarrow> Inr (s' @ [(p, Carpeta d)])))"
  by pat_completeness auto
termination
  by (relation "measure (\<lambda>(d, s, p). length p)") auto

declare mkdir_parents.simps [simp del]

text \<open>
  \<open>os.rename\<close>: a regular file replaces whatever regular file is at the destination; a
  directory moves with everything below it.
\<close>

definition os_rename :: "sistema \<Rightarrow> ruta \<Rightarrow> ruta \<Rightarrow> sistema" where
  "os_rename s src dst =
     (case buscar s src of
        Some (Archivo f c b) \<Rightarrow>
          filter (\<lambda>e. fst e \<noteq> src \<and> fst e \<noteq> dst) s @ [(dst, Archivo f c b)]
      | _ \<Rightarrow>
          map (\<lambda>e. (if take (length src) (fst e) = src
                       then dst @ drop (length src) (fst e) else fst e, snd e))
              (filter (\<lambda>e. fst e \<noteq> dst) s))"

definition no_movible :: "nodo \<Rightarrow> bool" where
  "no_movible n = (case n of Archivo _ _ b \<Rightarrow> b | Carpeta _ \<Rightarrow> False)"

text \<open>
  \<open>shutil.move(src, dst)\<close>: when \<open>dst\<close> is an existing directory the source goes inside
  it (an error if that name is taken there); otherwise the source is renamed to \<open>dst\<close>.
\<close>

definition shutil_move :: "sistema \<Rightarrow> ruta \<Rightarrow> ruta \<Rightarrow> error + sistema" where
  "shutil_move s src dst =
     (case buscar s src of
        None \<Rightarrow> Inl FileNotFoundError
      | Some n \<Rightarrow>
          if no_movible n then Inl PermissionError
          else if is_dir s dst then
            (if src = dst then Inr s
             else let real_dst = dst @ [path_name src]
                  in if existe s real_dst then Inl ShutilError
                     else Inr (os_rename s src real_dst))
          else Inr (os_rename s src dst))"

section \<open>The world: filesystem, log, clock and terminal\<close>

text \<open>
  \<open>registro\<close> holds the lines of the log file, which are kept apart from \<open>fs\<close> (the
  log's own directory entry may be in \<open>fs\<close>; the sweep skips it), and \<open>salida\<close> the
  lines printed. The
  log may be unwritable (\<open>log_ok\<close> false): \<open>escribir_log\<close> swallows the exception. The
  clock is read once per log line: the \<open>n\<close>-th reading is \<open>reloj n\<close>, already formatted
  as \<open>%Y-%m-%d %H:%M:%S\<close>. \<open>hogar\<close> is \<open>Path.home()\<close> and \<open>hoy\<close> dates new directories.
\<close>

record mundo =
  fs :: sistema
  registro :: "string list"
  log_ok :: bool
  reloj :: "nat \<Rightarrow> string"
  lecturas :: nat
  salida :: "string list"
  hogar :: ruta
  hoy :: fecha

definition imprimir :: "string \<Rightarrow> mundo \<Rightarrow> mundo" where
  "imprimir linea w = w\<lparr>salida := salida w @ [linea]\<rparr>"

definition str_error :: "error \<Rightarrow> string" where
  "str_error e =
     (case e of FileExistsError \<Rightarrow> ''FileExistsError''
      | NotADirectoryError \<Rightarrow> ''NotADirectoryError''
      | FileNotFoundError \<Rightarrow> ''FileNotFoundError''
      | PermissionError \<Rightarrow> ''PermissionError''
      | IndexError \<Rightarrow> ''IndexError''
      | ShutilError \<Rightarrow> ''Error''
      | BadParameter \<Rightarrow> ''BadParameter''
      | RecursionError \<Rightarrow> ''RecursionError'')"

definition CARPETA_DESCARGAS :: "mundo \<Rightarrow> ruta" where
  "CARPETA_DESCARGAS w = hogar w @ [''Downloads'']"

definition CARPETA_ORDENADA :: "mundo \<Rightarrow> ruta" where
  "CARPETA_ORDENADA w = CARPETA_DESCARGAS w"

definition FICHERO_LOG :: "mundo \<Rightarrow> ruta" where
  "FICHERO_LOG w = CARPETA_DESCARGAS w @ [''_watchdog_descargas.log'']"

definition escribir_log :: "string \<Rightarrow> mundo \<Rightarrow> mundo" where
  "escribir_log mensaje w =
     (if log_ok w
      then w\<lparr>registro := registro w @ [''['' @ reloj w (lecturas w) @ ''] '' @ mensaje],
             lecturas := lecturas w + 1\<rparr>
      else w)"

section \<open>The collision loop\<close>

text \<open>
  The loop of both scripts: while the candidate exists, the next candidate is
  \<open>stem_contador.suffix\<close> in the destination directory. Its termination rests on the
  decimal rendering being injective: the taken names with a counter at or above the
  current one get fewer at each round.
\<close>
definition valor_decimal :: "string \<Rightarrow> int" where
  "valor_decimal s = foldl (\<lambda>a c. 10 * a + (of_char c - 48)) 0 s"

lemma valor_digit: "0 \<le> d \<Longrightarrow> d < 10 \<Longrightarrow> (of_char (digit_char d) :: int) - 48 = d"
  by (simp add: digit_char_def)

lemma valor_str_pos: "0 \<le> n \<Longrightarrow> valor_decimal (str_pos n) = n"
proof (induction n rule: str_pos.induct)
  case (1 n)
  show ?case
  proof (cases "n < 10")
    case True
    with "1.prems" show ?thesis
      by (subst str_pos.simps) (simp add: valor_decimal_def valor_digit)
  next
    case False
    have m: "0 \<le> n mod 10" "n mod 10 < 10" by simp_all
    from False "1.prems" have "0 \<le> n div 10" by simp
    with False 1 m show ?thesis
      by (subst str_pos.simps) (simp add: valor_decimal_def valor_digit)
  qed
qed

lemma str_nat_inj: "str_nat a = str_nat b \<Longrightarrow> a = b"
proof -
  assume "str_nat a = str_nat b"
  then have "str_pos (int a) = str_pos (int b)" by (simp add: str_nat_def str_int_def)
  then have "valor_decimal (str_pos (int a)) = valor_decimal (str_pos (int b))" by simp
  then show "a = b" by (simp add: valor_str_pos)
qed

definition nombre_con_sufijo :: "string \<Rightarrow> nat \<Rightarrow> string \<Rightarrow> string" where
  "nombre_con_sufijo stem contador suf = stem @ ''_'' @ str_nat contador @ suf"

lemma nombre_con_sufijo_inj:
  "nombre_con_sufijo stem a suf = nombre_con_sufijo stem b suf \<Longrightarrow> a = b"
  by (simp add: nombre_con_sufijo_def str_nat_inj)

lemma finite_ocupados:
  "finite {k. existe s (carpeta @ [nombre_con_sufijo stem k suf])}"
proof -
  let ?f = "\<lambda>k. carpeta @ [nombre_con_sufijo stem k suf]"
  have "inj ?f" by (auto simp: inj_def dest: nombre_con_sufijo_inj)
  moreover have "finite (dom (map_of s))" by (rule finite_dom_map_of)
  ultimately have "finite (?f -` dom (map_of s))" by (simp add: finite_vimageI)
  moreover have "{k. existe s (?f k)} = ?f -` dom (map_of s)"
    by (auto simp: existe_def buscar_def)
  ultimately show ?thesis by simp
qed

definition pendientes :: "sistema \<Rightarrow> ruta \<Rightarrow> string \<Rightarrow> string \<Rightarrow> nat \<Rightarrow> nat" where
  "pendientes s carpeta stem suf contador =
     card {k. contador \<le> k \<and> existe s (carpeta @ [nombre_con_sufijo stem k suf])}"

lemma pendientes_Suc:
  "pendientes s carpeta stem suf (Suc c) =
     (if existe s (carpeta @ [nombre_con_sufijo stem c suf])
      then pendientes s carpeta stem suf c - 1 else pendientes s carpeta stem suf c)"
proof -
  let ?A = "\<lambda>c. {k. c \<le> k \<and> existe s (carpeta @ [nombre_con_sufijo stem k suf])}"
  have fin: "finite (?A c)" using finite_ocupados [of s carpeta stem suf] by simp
  show ?thesis
  proof (cases "existe s (carpeta @ [nombre_con_sufijo stem c suf])")
    case True
    then have "?A (Suc c) = ?A c - {c}" by (auto simp: Suc_le_eq)
    moreover have "c \<in> ?A c" using True by simp
    ultimately show ?thesis using True fin by (simp add: pendientes_def)
  next
    case False
    then have "?A (Suc c) = ?A c" by (auto simp: Suc_le_eq) (metis le_neq_implies_less)
    then show ?thesis using False by (simp add: pendientes_def)
  qed
qed

lemma pendientes_pos:
  "existe s (carpeta @ [nombre_con_sufijo stem c suf]) \<Longrightarrow> 0 < pendientes s carpeta stem suf c"
proof -
  assume a: "existe s (carpeta @ [nombre_con_sufijo stem c suf])"
  let ?A = "{k. c \<le> k \<and> existe s (carpeta @ [nombre_con_sufijo stem k suf])}"
  have "finite ?A" using finite_ocupados [of s carpeta stem suf] by simp
  moreover have "c \<in> ?A" using a by simp
  ultimately show ?thesis unfolding pendientes_def by (metis card_gt_0_iff empty_iff)
qed

function bucle_contador :: "sistema \<Rightarrow> ruta \<Rightarrow> string \<Rightarrow> string \<Rightarrow> nat \<Rightarrow> ruta \<Rightarrow> ruta" where
  "bucle_contador s carpeta_destino stem suf contador destino =
     (if existe s destino
      then bucle_contador s carpeta_destino stem suf (contador + 1)
             (carpeta_destino @ [nombre_con_sufijo stem contador suf])
      else destino)"
  by pat_completeness auto
termination
proof (relation "measure (\<lambda>(s, carpeta, stem, suf, contador, destino).
         2 * pendientes s carpeta stem suf contador + (if existe s destino then 1 else 0))")
  show "wf (measure (\<lambda>(s, carpeta, stem, suf, contador, destino).
         2 * pendientes s carpeta stem suf contador + (if existe s destino then 1 else 0)))"
    by simp
next
  fix s carpeta_destino stem suf contador destino
  assume "existe s destino"
  then show "((s, carpeta_destino, stem, suf, contador + 1,
               carpeta_destino @ [nombre_con_sufijo stem contador suf]),
              (s, carpeta_destino, stem, suf, contador, destino))
             \<in> measure (\<lambda>(s, carpeta, stem, suf, contador, destino).
                 2 * pendientes s carpeta stem suf contador + (if existe s destino then 1 else 0))"
    using pendientes_pos [of s carpeta_destino stem contador suf]
    by (simp add: pendientes_Suc)
qed

declare bucle_contador.simps [simp del]

definition destino_sin_colision :: "sistema \<Rightarrow> ruta \<Rightarrow> ruta \<Rightarrow> ruta" where
  "destino_sin_colision s carpeta_destino archivo =
     bucle_contador s carpeta_destino (path_stem archivo) (path_suffix archivo) 1
       (carpeta_destino @ [path_name archivo])"

section \<open>02_watchdog_descargas.py: the watch-mode organiser\<close>

text \<open>
  A function that may raise returns \<open>Inl (e, w)\<close>, the exception with the world as it
  is when the exception leaves the function, or \<open>Inr\<close> with its normal result. The text
  of an exception is stood for by the name of its class. The one-second \<open>time.sleep\<close> of
  the event handler has no counterpart here: events are handled one at a time and nothing
  else acts on the filesystem meanwhile.
\<close>

definition carpeta_destino_watchdog :: "mundo \<Rightarrow> ruta \<Rightarrow> fecha \<Rightarrow> ruta option" where
  "carpeta_destino_watchdog w ruta_archivo fecha =
     (let sufijo = str_lower (path_suffix ruta_archivo);
          categoria = categoria_para_extension_watchdog sufijo;
          anio = str_int (year fecha)
      in case py_index MESES_ES (month fecha - 1) of
           None \<Rightarrow> None
         | Some nombre_mes \<Rightarrow>
             Some (CARPETA_ORDENADA w @ [categoria, anio, nombre_mes, quincena_de fecha]))"

definition mover_y_organizar :: "ruta \<Rightarrow> mundo \<Rightarrow> (error \<times> mundo) + mundo" where
  "mover_y_organizar ruta_archivo w =
     (case buscar (fs w) ruta_archivo of
        None \<Rightarrow> Inr w
      | Some n \<Rightarrow>
          (case carpeta_destino_watchdog w ruta_archivo (mtime n) of
             None \<Rightarrow> Inl (IndexError, w)
           | Some carpeta_destino \<Rightarrow>
               (case mkdir_parents (hoy w) (fs w) carpeta_destino of
                  Inl e \<Rightarrow> Inl (e, w)
                | Inr s1 \<Rightarrow>
                    let destino = destino_sin_colision s1 carpeta_destino ruta_archivo;
                        mensaje = ''MOVER '' @ str_path ruta_archivo @ '' -> '' @ str_path destino;
                        w1 = imprimir (''[MOVER] '' @ str_path ruta_archivo @ '' -> ''
                                         @ str_path destino) (w\<lparr>fs := s1\<rparr>);
                        w2 = escribir_log mensaje w1
                    in (case shutil_move (fs w2) ruta_archivo destino of
                          Inl e \<Rightarrow> Inl (e, w2)
                        | Inr s2 \<Rightarrow> Inr (w2\<lparr>fs := s2\<rparr>)))))"

definition es_temporal :: "ruta \<Rightarrow> bool" where
  "es_temporal ruta = (str_lower (path_suffix ruta) \<in> set EXTENSIONES_TEMPORALES)"

definition procesar_archivo_nuevo :: "ruta \<Rightarrow> mundo \<Rightarrow> mundo" where
  "procesar_archivo_nuevo ruta_archivo w =
     (if ruta_archivo = FICHERO_LOG w then w
      else if es_temporal ruta_archivo then w
      else (case mover_y_organizar ruta_archivo w of
              Inr w' \<Rightarrow> w'
            | Inl (e, w') \<Rightarrow>
                imprimir (''[ERROR] No se pudo mover '' @ str_path ruta_archivo @ '': ''
                            @ str_error e) w'))"

record evento =
  is_directory :: bool
  src_path :: ruta
  dest_path :: ruta

definition on_created :: "evento \<Rightarrow> mundo \<Rightarrow> mundo" where
  "on_created event w =
     (if is_directory event then w else procesar_archivo_nuevo (src_path event) w)"

definition on_moved :: "evento \<Rightarrow> mundo \<Rightarrow> mundo" where
  "on_moved event w =
     (if is_directory event then w else procesar_archivo_nuevo (dest_path event) w)"

text \<open>
  The loop of \<open>procesar_archivos_existentes\<close> over the listing that \<open>iterdir\<close> took when
  the loop started; the state is the world with the two counters.
\<close>

fun bucle_existentes :: "ruta list \<Rightarrow> mundo \<times> nat \<times> nat \<Rightarrow> mundo \<times> nat \<times> nat" where
  "bucle_existentes [] st = st"
| "bucle_existentes (ruta # resto) (w, total_encontrados, total_movidos) =
     (if is_dir (fs w) ruta then bucle_existentes resto (w, total_encontrados, total_movidos)
      else if ruta = FICHERO_LOG w
        then bucle_existentes resto (w, total_encontrados, total_movidos)
      else if es_temporal ruta
        then bucle_existentes resto (w, total_encontrados, total_movidos)
      else (case mover_y_organizar ruta w of
              Inr w' \<Rightarrow> bucle_existentes resto (w', total_encontrados + 1, total_movidos + 1)
            | Inl (e, w') \<Rightarrow>
                bucle_existentes resto
                  (escribir_log (''ERROR al mover existente '' @ str_path ruta @ '': ''
                                   @ str_error e)
                     (imprimir (''[ERROR] No se pudo mover existente '' @ str_path ruta
                                  @ '': '' @ str_error e) w'),
                   total_encontrados + 1, total_movidos)))"

definition procesar_archivos_existentes :: "mundo \<Rightarrow> mundo \<times> nat \<times> nat" where
  "procesar_archivos_existentes w =
     (let w0 = imprimir (CHR 0x0A # ''[INICIO] Procesando archivos existentes en Descargas...'') w
      in case bucle_existentes (iterdir (fs w0) (CARPETA_DESCARGAS w0)) (w0, 0, 0) of
           (w1, total_encontrados, total_movidos) \<Rightarrow>
             (imprimir (''[FIN] Archivos existentes encontrados: '' @ str_nat total_encontrados
                          @ '', movidos: '' @ str_nat total_movidos @ [CHR 0x0A]) w1,
              total_encontrados, total_movidos))"

section \<open>03_typer_organizador.py: the command-line organiser\<close>

text \<open>
  \<open>iterar_archivos\<close> is a generator, so the loop of \<open>organizar\<close> runs while the folder is
  being listed: \<open>is_file\<close> is asked of each candidate when the loop reaches it, in the
  filesystem as the earlier iterations left it. \<open>bucle_organizar\<close> is that loop over one
  listing.
\<close>

definition destino_para_archivo :: "sistema \<Rightarrow> ruta \<Rightarrow> ruta \<Rightarrow> error + ruta" where
  "destino_para_archivo s archivo carpeta_base =
     (let sufijo = str_lower (path_suffix archivo);
          categoria = categoria_para_extension_typer sufijo
      in case buscar s archivo of
           None \<Rightarrow> Inl FileNotFoundError
         | Some n \<Rightarrow>
             (let fecha = mtime n; anio = str_int (year fecha)
              in case py_index MESES_ES (month fecha - 1) of
                   None \<Rightarrow> Inl IndexError
                 | Some nombre_mes \<Rightarrow>
                     Inr (carpeta_base @ [categoria, anio, nombre_mes, quincena_de fecha])))"

fun bucle_organizar ::
  "ruta \<Rightarrow> bool \<Rightarrow> ruta list \<Rightarrow> mundo \<times> nat \<times> nat \<Rightarrow> (error \<times> mundo) + (mundo \<times> nat \<times> nat)"
where
  "bucle_organizar carpeta dry_run [] st = Inr st"
| "bucle_organizar carpeta dry_run (archivo # resto) (w, total_analizados, movidos) =
     (if \<not> is_file (fs w) archivo then bucle_organizar carpeta dry_run resto (w, total_analizados, movidos)
      else if es_temporal archivo
        then bucle_organizar carpeta dry_run resto (w, total_analizados, movidos)
      else (case destino_para_archivo (fs w) archivo carpeta of
              Inl e \<Rightarrow> Inl (e, w)
            | Inr carpeta_destino \<Rightarrow>
                (case mkdir_parents (hoy w) (fs w) carpeta_destino of
                   Inl e \<Rightarrow> Inl (e, w)
                 | Inr s1 \<Rightarrow>
                     let destino = destino_sin_colision s1 carpeta_destino archivo;
                         w1 = w\<lparr>fs := s1\<rparr>
                     in if dry_run
                        then bucle_organizar carpeta dry_run resto
                               (imprimir (''[SIMULAR] '' @ str_path archivo @ '' -> ''
                                            @ str_path destino) w1,
                                total_analizados + 1, movidos)
                        else (let w2 = imprimir (''[MOVER] '' @ str_path archivo @ '' -> ''
                                                   @ str_path destino) w1
                              in case shutil_move (fs w2) archivo destino of
                                   Inl e \<Rightarrow> Inl (e, w2)
                                 | Inr s2 \<Rightarrow>
                                     bucle_organizar carpeta dry_run resto
                                       (w2\<lparr>fs := s2\<rparr>, total_analizados + 1, movidos + 1)))))"

text \<open>
  Without \<open>--recursivo\<close> the candidates are the listing \<open>iterdir\<close> takes when the loop
  starts. With it they come from \<open>rglob\<close>, which walks lazily: it lists a directory
  and hands its entries to the loop; only when the loop is done with them does it list
  the directory again, for its subdirectories, and walk each of those in turn. So the
  walk enters the directories the loop itself has created. \<open>recorrer\<close> is the loop
  driven by that walk, from the directory \<open>d\<close> down. The walk nests one generator per
  directory level; the first argument is the depth the interpreter has left, and
  \<open>RecursionError\<close> is raised when it is used up. \<open>limite_recursion\<close> is the interpreter's
  default recursion limit, an upper bound of that depth. No path is offered twice, since
  a path is offered only while its parent is listed and each directory is listed once.
\<close>

definition limite_recursion :: nat where
  "limite_recursion = 1000"

fun recorrer ::
  "nat \<Rightarrow> ruta \<Rightarrow> bool \<Rightarrow> ruta \<Rightarrow> mundo \<times> nat \<times> nat
     \<Rightarrow> (error \<times> mundo) + (mundo \<times> nat \<times> nat)"
and recorrer_hijos ::
  "nat \<Rightarrow> ruta \<Rightarrow> bool \<Rightarrow> ruta list \<Rightarrow> mundo \<times> nat \<times> nat
     \<Rightarrow> (error \<times> mundo) + (mundo \<times> nat \<times> nat)"
where
  "recorrer 0 carpeta dry_run d st = Inl (RecursionError, fst st)"
| "recorrer (Suc n) carpeta dry_run d st =
     (case bucle_organizar carpeta dry_run (iterdir (fs (fst st)) d) st of
        Inl x \<Rightarrow> Inl x
      | Inr st1 \<Rightarrow>
          recorrer_hijos n carpeta dry_run
            (filter (is_dir (fs (fst st1))) (iterdir (fs (fst st1)) d)) st1)"
| "recorrer_hijos n carpeta dry_run [] st = Inr st"
| "recorrer_hijos n carpeta dry_run (hijo # resto) st =
     (case recorrer n carpeta dry_run hijo st of
        Inl x \<Rightarrow> Inl x
      | Inr st1 \<Rightarrow> recorrer_hijos n carpeta dry_run resto st1)"

definition bucle_iterar_archivos ::
  "ruta \<Rightarrow> bool \<Rightarrow> bool \<Rightarrow> mundo \<times> nat \<times> nat
     \<Rightarrow> (error \<times> mundo) + (mundo \<times> nat \<times> nat)"
where
  "bucle_iterar_archivos carpeta recursivo dry_run st =
     (if recursivo then recorrer limite_recursion carpeta dry_run carpeta st
      else bucle_organizar carpeta dry_run (iterdir (fs (fst st)) carpeta) st)"

definition organizar ::
  "ruta \<Rightarrow> bool \<Rightarrow> bool \<Rightarrow> mundo \<Rightarrow> (error \<times> mundo) + (mundo \<times> nat \<times> nat)"
where
  "organizar carpeta recursivo dry_run w =
     (if \<not> is_dir (fs w) carpeta then Inl (BadParameter, w)
      else
        let w0 = imprimir (''Carpeta base: '' @ str_path carpeta) w;
            w1 = (if dry_run
                  then imprimir (''Modo: simulaci'' @ [CHR 0xF3] @ ''n (no se mover''
                                   @ [CHR 0xE1] @ ''n archivos)'') w0
                  else w0);
            w2 = (if recursivo
                  then imprimir ''Recorrido: recursivo (incluye subcarpetas)'' w1 else w1)
        in case bucle_iterar_archivos carpeta recursivo dry_run (w2, 0, 0) of
             Inl x \<Rightarrow> Inl x
           | Inr (w3, total_analizados, movidos) \<Rightarrow>
               let w4 = imprimir (CHR 0x0A # ''Archivos analizados: '' @ str_nat total_analizados) w3;
                   w5 = (if dry_run
                         then imprimir (''Movimientos simulados: '' @ str_nat total_analizados) w4
                         else imprimir (''Archivos movidos: '' @ str_nat movidos) w4)
               in Inr (w5, total_analizados, movidos))"

text \<open>The two lines a watch-mode relocation prints and logs before it moves the file.\<close>

definition lineas_mover :: "ruta \<Rightarrow> ruta \<Rightarrow> mundo \<Rightarrow> mundo" where
  "lineas_mover src dst w =
     escribir_log (''MOVER '' @ str_path src @ '' -> '' @ str_path dst)
       (imprimir (''[MOVER] '' @ str_path src @ '' -> '' @ str_path dst) w)"

text \<open>
  A file the watch-mode sweep still has to organise: a regular file directly in the
  downloads folder that is neither the log nor a temporary download.
\<close>

definition pendiente_watchdog :: "mundo \<Rightarrow> ruta \<Rightarrow> bool" where
  "pendiente_watchdog w q =
     (butlast q = CARPETA_DESCARGAS w \<and> is_file (fs w) q \<and> q \<noteq> FICHERO_LOG w \<and> \<not> es_temporal q)"

text \<open>
  The body of the command-line loop for one file that passed the two filters, and the
  files that loop still has to organise.
\<close>

definition cuerpo_organizar :: "ruta \<Rightarrow> bool \<Rightarrow> ruta \<Rightarrow> mundo \<Rightarrow> (error \<times> mundo) + mundo" where
  "cuerpo_organizar carpeta dry_run archivo w =
     (case destino_para_archivo (fs w) archivo carpeta of
        Inl e \<Rightarrow> Inl (e, w)
      | Inr carpeta_destino \<Rightarrow>
          (case mkdir_parents (hoy w) (fs w) carpeta_destino of
             Inl e \<Rightarrow> Inl (e, w)
           | Inr s1 \<Rightarrow>
               let destino = destino_sin_colision s1 carpeta_destino archivo;
                   w1 = w\<lparr>fs := s1\<rparr>
               in if dry_run
                  then Inr (imprimir (''[SIMULAR] '' @ str_path archivo @ '' -> ''
                                        @ str_path destino) w1)
                  else (let w2 = imprimir (''[MOVER] '' @ str_path archivo @ '' -> ''
                                             @ str_path destino) w1
                        in case shutil_move (fs w2) archivo destino of
                             Inl e \<Rightarrow> Inl (e, w2)
                           | Inr s2 \<Rightarrow> Inr (w2\<lparr>fs := s2\<rparr>))))"

definition pendiente_typer :: "ruta \<Rightarrow> mundo \<Rightarrow> ruta \<Rightarrow> bool" where
  "pendiente_typer carpeta w q =
     (butlast q = carpeta \<and> is_file (fs w) q \<and> \<not> es_temporal q)"

section \<open>Example filesystems\<close>

definition fecha_ejemplo :: fecha where
  "fecha_ejemplo = \<lparr>year = 2024, month = 3, day = 10\<rparr>"

definition sistema_colision :: sistema where
  "sistema_colision =
     [([''d''], Carpeta fecha_ejemplo),
      ([''d'', ''photo.jpg''], Archivo fecha_ejemplo ''uno'' False),
      ([''d'', ''photo_1.jpg''], Archivo fecha_ejemplo ''dos'' False)]"

definition sistema_informe :: sistema where
  "sistema_informe =
     [([''root''], Carpeta fecha_ejemplo),
      ([''root'', ''report.pdf''], Archivo fecha_ejemplo ''informe'' False),
      ([''root'', ''NOTES.TXT''], Archivo fecha_ejemplo ''notas'' False)]"

definition mundo_informe :: mundo where
  "mundo_informe =
     \<lparr>fs = sistema_informe, registro = [], log_ok = True, reloj = (\<lambda>n. ''2024-03-11 09:00:00''),
      lecturas = 0, salida = [], hogar = [''root''], hoy = fecha_ejemplo\<rparr>"

definition DESCARGAS :: ruta where
  "DESCARGAS = [''home'', ''Downloads'']"

definition sistema_descargas :: sistema where
  "sistema_descargas =
     [([''home''], Carpeta fecha_ejemplo),
      (DESCARGAS, Carpeta fecha_ejemplo),
      (DESCARGAS @ [''report.pdf''], Archivo fecha_ejemplo ''informe'' False),
      (DESCARGAS @ [''video.mp4.CRDOWNLOAD''], Archivo fecha_ejemplo ''parcial'' False),
      (DESCARGAS @ [''photo.jpg''],
         Archivo \<lparr>year = 2023, month = 12, day = 24\<rparr> ''foto'' False)]"

definition mundo_descargas :: mundo where
  "mundo_descargas =
     \<lparr>fs = sistema_descargas, registro = [], log_ok = True,
      reloj = (\<lambda>n. ''2024-03-11 09:00:0'' @ str_nat n),
      lecturas = 0, salida = [], hogar = [''home''],
      hoy = \<lparr>year = 2024, month = 3, day = 11\<rparr>\<rparr>"

text \<open>A downloads folder that an earlier run organised: one report in its bucket.\<close>

definition QUINCENA_INFORME :: ruta where
  "QUINCENA_INFORME = DESCARGAS @ [''documentos'', ''2024'', ''marzo'', ''1-15'']"

definition sistema_organizado :: sistema where
  "sistema_organizado =
     [([''home''], Carpeta fecha_ejemplo),
      (DESCARGAS, Carpeta fecha_ejemplo),
      (DESCARGAS @ [''documentos''], Carpeta fecha_ejemplo),
      (DESCARGAS @ [''documentos'', ''2024''], Carpeta fecha_ejemplo),
      (DESCARGAS @ [''documentos'', ''2024'', ''marzo''], Carpeta fecha_ejemplo),
      (QUINCENA_INFORME, Carpeta fecha_ejemplo),
      (QUINCENA_INFORME @ [''report.pdf''], Archivo fecha_ejemplo ''informe'' False)]"

definition mundo_organizado :: mundo where
  "mundo_organizado = mundo_descargas\<lparr>fs := sistema_organizado\<rparr>"

text \<open>
  What a move must achieve: \<open>reubicado s s' src dst\<close> says that \<open>dst\<close> was free, now holds
  what \<open>src\<close> held, \<open>src\<close> is gone and every other entry is as it was.
  \<open>nombre_final s cd src dst\<close> says that \<open>dst\<close> is the file's own name in \<open>cd\<close> when that
  is free in \<open>s\<close>, and otherwise \<open>stem_k.suffix\<close> for the first \<open>k \<ge> 1\<close> that is free.
\<close>

definition reubicado :: "sistema \<Rightarrow> sistema \<Rightarrow> ruta \<Rightarrow> ruta \<Rightarrow> bool" where
  "reubicado s s' src dst =
     (\<not> existe s dst \<and> buscar s' dst = buscar s src \<and> buscar s' src = None
      \<and> (\<forall>q n. q \<noteq> src \<and> buscar s q = Some n \<longrightarrow> buscar s' q = Some n))"

definition nombre_final :: "sistema \<Rightarrow> ruta \<Rightarrow> ruta \<Rightarrow> ruta \<Rightarrow> bool" where
  "nombre_final s cd src dst =
     (if existe s (cd @ [path_name src])
      then (\<exists>k\<ge>1. dst = cd @ [path_stem src @ ''_'' @ str_nat k @ path_suffix src]
              \<and> (\<forall>j. 1 \<le> j \<and> j < k \<longrightarrow>
                    existe s (cd @ [path_stem src @ ''_'' @ str_nat j @ path_suffix src])))
      else dst = cd @ [path_name src])"

text \<open>A downloads folder whose image bucket already holds a \<open>photo.jpg\<close>.\<close>

definition QUINCENA_FOTO :: ruta where
  "QUINCENA_FOTO = DESCARGAS @ [''imagenes'', ''2023'', ''diciembre'', ''16-31'']"

definition sistema_foto :: sistema where
  "sistema_foto =
     sistema_descargas @
     [(DESCARGAS @ [''imagenes''], Carpeta fecha_ejemplo),
      (DESCARGAS @ [''imagenes'', ''2023''], Carpeta fecha_ejemplo),
      (DESCARGAS @ [''imagenes'', ''2023'', ''diciembre''], Carpeta fecha_ejemplo),
      (QUINCENA_FOTO, Carpeta fecha_ejemplo),
      (QUINCENA_FOTO @ [''photo.jpg''],
         Archivo \<lparr>year = 2023, month = 12, day = 20\<rparr> ''otra foto'' False)]"

definition mundo_foto :: mundo where
  "mundo_foto = mundo_descargas\<lparr>fs := sistema_foto\<rparr>"

text \<open>
  A listed path the watch-mode sweep attempts: a regular file that is neither the log
  nor a temporary download.
\<close>

definition elegible_watchdog :: "mundo \<Rightarrow> ruta \<Rightarrow> bool" where
  "elegible_watchdog w q = (is_file (fs w) q \<and> q \<noteq> FICHERO_LOG w \<and> \<not> es_temporal q)"

text \<open>A downloads folder whose first file is locked by another program.\<close>

definition sistema_bloqueado :: sistema where
  "sistema_bloqueado =
     [([''home''], Carpeta fecha_ejemplo),
      (DESCARGAS, Carpeta fecha_ejemplo),
      (DESCARGAS @ [''report.pdf''], Archivo fecha_ejemplo ''informe'' True),
      (DESCARGAS @ [''photo.jpg''],
         Archivo \<lparr>year = 2023, month = 12, day = 24\<rparr> ''foto'' False)]"

definition mundo_bloqueado :: mundo where
  "mundo_bloqueado = mundo_descargas\<lparr>fs := sistema_bloqueado\<rparr>"

section \<open>Properties of the classifier\<close>

lemma lower_char_idem: "lower_char (lower_char c) = lower_char c"
proof -
  have n: "of_char c < (256::nat)" by simp
  have "(of_char c :: int) = int (of_char c)" by (simp only: of_nat_of_char)
  with n have "of_char c < (256::int)" "0 \<le> (of_char c :: int)" by linarith+
  then show ?thesis
    by (auto simp: lower_char_def Let_def)
qed

lemma str_lower_idem: "str_lower (str_lower s) = str_lower s"
  by (simp add: str_lower_def lower_char_idem)

lemma watchdog_is_first_match:
  "categoria_para_extension_watchdog e = classify_spec priority_watchdog e"
  by (simp add: categoria_para_extension_watchdog_def classify_spec_def priority_watchdog_def Let_def)

lemma typer_is_first_match:
  "categoria_para_extension_typer e = classify_spec priority_typer e"
  by (simp add: categoria_para_extension_typer_def classify_spec_def priority_typer_def Let_def)

lemma watchdog_in_categorias: "categoria_para_extension_watchdog e \<in> set CATEGORIAS"
  by (simp add: categoria_para_extension_watchdog_def CATEGORIAS_def Let_def)

lemma typer_in_categorias: "categoria_para_extension_typer e \<in> set CATEGORIAS"
  by (simp add: categoria_para_extension_typer_def CATEGORIAS_def Let_def)

text \<open>
  Claim C3. The classifier of either script is a total function of the extension string:
  it lowercases its input, returns the first category of the priority order datos,
  documentos, imagenes, videos, comprimidos, scripts whose set holds the lowercased
  extension and \<open>otros\<close> when none does, always one of the seven labels; two extensions
  that are equal up to case get the same category.
\<close>

theorem classify_total_deterministic:
  "categoria_para_extension_watchdog e = classify_spec priority_watchdog e
   \<and> categoria_para_extension_typer e = classify_spec priority_typer e
   \<and> categoria_para_extension_watchdog e \<in> set CATEGORIAS
   \<and> categoria_para_extension_typer e \<in> set CATEGORIAS
   \<and> categoria_para_extension_watchdog (str_lower e) = categoria_para_extension_watchdog e
   \<and> categoria_para_extension_typer (str_lower e) = categoria_para_extension_typer e
   \<and> (str_lower e = str_lower e' \<longrightarrow>
        categoria_para_extension_watchdog e = categoria_para_extension_watchdog e'
        \<and> categoria_para_extension_typer e = categoria_para_extension_typer e')"
proof -
  have "categoria_para_extension_watchdog (str_lower e) = categoria_para_extension_watchdog e"
    by (simp add: categoria_para_extension_watchdog_def str_lower_idem)
  moreover have "categoria_para_extension_typer (str_lower e) = categoria_para_extension_typer e"
    by (simp add: categoria_para_extension_typer_def str_lower_idem)
  moreover have "str_lower e = str_lower e' \<longrightarrow>
        categoria_para_extension_watchdog e = categoria_para_extension_watchdog e'
        \<and> categoria_para_extension_typer e = categoria_para_extension_typer e'"
    by (simp add: categoria_para_extension_watchdog_def categoria_para_extension_typer_def)
  ultimately show ?thesis
    using watchdog_is_first_match typer_is_first_match watchdog_in_categorias typer_in_categorias
    by blast
qed

theorem classify_total_deterministic_witness:
  "str_lower ''.PDF'' = str_lower ''.pdf''
   \<and> categoria_para_extension_watchdog ''.PDF'' = categoria_para_extension_watchdog ''.pdf''
   \<and> categoria_para_extension_typer ''.PDF'' = categoria_para_extension_typer ''.pdf''
   \<and> categoria_para_extension_typer ''.pdf'' = ''documentos''"
proof -
  have h: "str_lower ''.PDF'' = str_lower ''.pdf''" by code_simp
  have d: "categoria_para_extension_typer ''.pdf'' = ''documentos''" by code_simp
  from classify_total_deterministic [of "''.PDF''" "''.pdf''"] h d show ?thesis by blast
qed

text \<open>
  Claim C9 as stated fails: on \<open>.json\<close> the watch-mode classifier answers \<open>scripts\<close> and
  the command-line classifier answers \<open>otros\<close>.
\<close>

theorem classifiers_differ_counterexample:
  "categoria_para_extension_watchdog ''.json'' = ''scripts''
   \<and> categoria_para_extension_typer ''.json'' = ''otros''
   \<and> categoria_para_extension_watchdog ''.json'' \<noteq> categoria_para_extension_typer ''.json''"
  by code_simp

text \<open>
  Claim C9, amended. The two classifiers return the same category for every extension
  whose lowercase form is not one of \<open>.vtt .odt .rtf .epub .md .srt .json\<close>; on those
  seven the command-line classifier returns \<open>otros\<close>, while the watch-mode classifier
  returns \<open>scripts\<close> for \<open>.json\<close> and \<open>documentos\<close> for the other six.
\<close>

theorem classifiers_agree_elsewhere:
  "(str_lower e \<notin> set EXT_SOLO_WATCHDOG \<longrightarrow>
      categoria_para_extension_watchdog e = categoria_para_extension_typer e)
   \<and> (str_lower e \<in> set EXT_SOLO_WATCHDOG \<longrightarrow>
      categoria_para_extension_typer e = ''otros''
      \<and> categoria_para_extension_watchdog e = (if str_lower e = ''.json'' then ''scripts'' else ''documentos''))"
  by (auto simp: categoria_para_extension_watchdog_def categoria_para_extension_typer_def Let_def
        EXT_SOLO_WATCHDOG_def
        EXT_DATOS_watchdog_def EXT_DOCS_watchdog_def EXT_IMG_watchdog_def EXT_VIDEO_watchdog_def
        EXT_COMP_watchdog_def EXT_SCRIPTS_watchdog_def
        EXT_DATOS_typer_def EXT_DOCS_typer_def EXT_IMG_typer_def EXT_VIDEO_typer_def
        EXT_COMP_typer_def EXT_SCRIPTS_typer_def)

theorem classifiers_agree_elsewhere_witness:
  "str_lower ''.PDF'' \<notin> set EXT_SOLO_WATCHDOG
   \<and> categoria_para_extension_watchdog ''.PDF'' = categoria_para_extension_typer ''.PDF''
   \<and> str_lower ''.MD'' \<in> set EXT_SOLO_WATCHDOG
   \<and> categoria_para_extension_typer ''.MD'' = ''otros''
   \<and> categoria_para_extension_watchdog ''.MD'' = ''documentos''"
proof -
  have a: "str_lower ''.PDF'' \<notin> set EXT_SOLO_WATCHDOG" by code_simp
  have b: "str_lower ''.MD'' \<in> set EXT_SOLO_WATCHDOG" by code_simp
  have c: "str_lower ''.MD'' \<noteq> ''.json''" by code_simp
  from classifiers_agree_elsewhere [of "''.PDF''"] classifiers_agree_elsewhere [of "''.MD''"] a b c
  show ?thesis by simp
qed

section \<open>Properties of the collision loop\<close>

lemma bucle_contador_libre:
  "\<not> existe s (bucle_contador s c st su n d)"
  by (induction s c st su n d rule: bucle_contador.induct)
     (subst bucle_contador.simps, simp)

lemma bucle_contador_cases:
  "(\<not> existe s d \<and> bucle_contador s c st su n d = d) \<or>
   (existe s d \<and> (\<exists>k\<ge>n. bucle_contador s c st su n d = c @ [nombre_con_sufijo st k su]
       \<and> \<not> existe s (c @ [nombre_con_sufijo st k su])
       \<and> (\<forall>j. n \<le> j \<and> j < k \<longrightarrow> existe s (c @ [nombre_con_sufijo st j su]))))"
proof (induction s c st su n d rule: bucle_contador.induct)
  case (1 s c st su n d)
  show ?case
  proof (cases "existe s d")
    case False
    then show ?thesis by (subst bucle_contador.simps) simp
  next
    case True
    from 1 [OF True] show ?thesis
    proof
      assume a: "\<not> existe s (c @ [nombre_con_sufijo st n su]) \<and>
        bucle_contador s c st su (n + 1) (c @ [nombre_con_sufijo st n su]) = c @ [nombre_con_sufijo st n su]"
      have "bucle_contador s c st su n d = c @ [nombre_con_sufijo st n su]"
        using True a by (subst bucle_contador.simps) simp
      with a True show ?thesis by (intro disjI2 conjI exI [of _ n]) auto
    next
      assume "existe s (c @ [nombre_con_sufijo st n su]) \<and>
        (\<exists>k\<ge>n + 1. bucle_contador s c st su (n + 1) (c @ [nombre_con_sufijo st n su]) = c @ [nombre_con_sufijo st k su]
          \<and> \<not> existe s (c @ [nombre_con_sufijo st k su])
          \<and> (\<forall>j. n + 1 \<le> j \<and> j < k \<longrightarrow> existe s (c @ [nombre_con_sufijo st j su])))"
      then obtain k where k: "n + 1 \<le> k" "existe s (c @ [nombre_con_sufijo st n su])"
        "bucle_contador s c st su (n + 1) (c @ [nombre_con_sufijo st n su]) = c @ [nombre_con_sufijo st k su]"
        "\<not> existe s (c @ [nombre_con_sufijo st k su])"
        "\<forall>j. n + 1 \<le> j \<and> j < k \<longrightarrow> existe s (c @ [nombre_con_sufijo st j su])"
        by blast
      have r: "bucle_contador s c st su n d = c @ [nombre_con_sufijo st k su]"
        using True k(3) by (subst bucle_contador.simps) simp
      have "\<forall>j. n \<le> j \<and> j < k \<longrightarrow> existe s (c @ [nombre_con_sufijo st j su])"
      proof (intro allI impI)
        fix j assume j: "n \<le> j \<and> j < k"
        show "existe s (c @ [nombre_con_sufijo st j su])"
        proof (cases "j = n")
          case True then show ?thesis using k(2) by simp
        next
          case False
          with j have "n + 1 \<le> j \<and> j < k" by simp
          with k(5) show ?thesis by blast
        qed
      qed
      with r k True show ?thesis by (intro disjI2 conjI exI [of _ k]) auto
    qed
  qed
qed

lemma stem_suffix: "path_stem p @ path_suffix p = path_name p"
  by (simp add: path_stem_def path_suffix_def Let_def)


text \<open>
  Claim C10. For every file name and every (finite) filesystem, the collision loop
  returns: the function is total. Its result is a path that does not exist; it is the
  original name in the destination directory when that is free, and otherwise
  \<open>stem_k.suffix\<close> for the smallest \<open>k \<ge> 1\<close> whose name is free (every smaller \<open>j \<ge> 1\<close>
  is taken).
\<close>

theorem collision_loop_least_free:
  "\<not> existe s (destino_sin_colision s carpeta archivo)
   \<and> ((\<not> existe s (carpeta @ [path_name archivo])
        \<and> destino_sin_colision s carpeta archivo = carpeta @ [path_name archivo])
      \<or> (existe s (carpeta @ [path_name archivo])
        \<and> (\<exists>k\<ge>1.
             destino_sin_colision s carpeta archivo
               = carpeta @ [path_stem archivo @ ''_'' @ str_nat k @ path_suffix archivo]
             \<and> (\<forall>j. 1 \<le> j \<and> j < k \<longrightarrow>
                  existe s (carpeta @ [path_stem archivo @ ''_'' @ str_nat j @ path_suffix archivo])))))"
  unfolding destino_sin_colision_def
  using bucle_contador_libre [of s carpeta "path_stem archivo" "path_suffix archivo" 1 "carpeta @ [path_name archivo]"]
    bucle_contador_cases [of s "carpeta @ [path_name archivo]" carpeta "path_stem archivo" "path_suffix archivo" 1]
  unfolding nombre_con_sufijo_def by blast

theorem collision_loop_least_free_witness:
  "existe sistema_colision [''d'', ''photo.jpg'']
   \<and> existe sistema_colision [''d'', ''photo_1.jpg'']
   \<and> destino_sin_colision sistema_colision [''d''] [''r'', ''photo.jpg''] = [''d'', ''photo_2.jpg'']
   \<and> \<not> existe sistema_colision [''d'', ''photo_2.jpg'']"
proof -
  have a: "existe sistema_colision [''d'', ''photo.jpg'']" by code_simp
  have b: "existe sistema_colision [''d'', ''photo_1.jpg'']" by code_simp
  have c: "destino_sin_colision sistema_colision [''d''] [''r'', ''photo.jpg''] = [''d'', ''photo_2.jpg'']"
    by code_simp
  from collision_loop_least_free [of sistema_colision "[''d'']" "[''r'', ''photo.jpg'']"]
  have "\<not> existe sistema_colision (destino_sin_colision sistema_colision [''d''] [''r'', ''photo.jpg''])"
    by blast
  with a b c show ?thesis by simp
qed

section \<open>Properties of the destination planner\<close>

lemma length_MESES_ES: "length MESES_ES = 12"
  by (simp add: MESES_ES_def)

text \<open>
  Claim C2. For a file whose modification date has a month between 1 and 12, the planned
  directory is \<open>root / category / year / month name / bucket\<close>, in the command-line
  script (\<open>destino_para_archivo\<close>) and in the watch-mode script alike; the month name is
  the entry \<open>month - 1\<close> of the 12-entry table \<open>MESES_ES\<close> and the bucket is \<open>1-15\<close> when
  the day is at most 15 and \<open>16-31\<close> otherwise. Two files of the same category and the
  same modification date get the same directory.
\<close>

theorem planned_directory:
  assumes "1 \<le> month f" and "month f \<le> 12"
  shows "length MESES_ES = 12
    \<and> (buscar s archivo = Some n \<and> mtime n = f \<longrightarrow>
         destino_para_archivo s archivo base
           = Inr (base @ [categoria_para_extension_typer (str_lower (path_suffix archivo)),
                          str_int (year f), MESES_ES ! nat (month f - 1),
                          if day f \<le> 15 then ''1-15'' else ''16-31'']))
    \<and> carpeta_destino_watchdog w ruta f
         = Some (CARPETA_ORDENADA w
                   @ [categoria_para_extension_watchdog (str_lower (path_suffix ruta)),
                      str_int (year f), MESES_ES ! nat (month f - 1),
                      if day f \<le> 15 then ''1-15'' else ''16-31''])
    \<and> (buscar s archivo = Some n \<and> mtime n = f \<and> buscar s' archivo' = Some n' \<and> mtime n' = f
         \<and> categoria_para_extension_typer (str_lower (path_suffix archivo))
             = categoria_para_extension_typer (str_lower (path_suffix archivo')) \<longrightarrow>
         destino_para_archivo s archivo base = destino_para_archivo s' archivo' base)
    \<and> (categoria_para_extension_watchdog (str_lower (path_suffix ruta))
             = categoria_para_extension_watchdog (str_lower (path_suffix ruta')) \<longrightarrow>
         carpeta_destino_watchdog w ruta f = carpeta_destino_watchdog w ruta' f)"
proof -
  have idx: "py_index MESES_ES (month f - 1) = Some (MESES_ES ! nat (month f - 1))"
    using assms by (simp add: py_index_def length_MESES_ES)
  have cli: "buscar s archivo = Some n \<and> mtime n = f \<longrightarrow>
         destino_para_archivo s archivo base
           = Inr (base @ [categoria_para_extension_typer (str_lower (path_suffix archivo)),
                          str_int (year f), MESES_ES ! nat (month f - 1),
                          if day f \<le> 15 then ''1-15'' else ''16-31''])"
    using idx by (auto simp: destino_para_archivo_def Let_def quincena_de_def)
  have wd: "carpeta_destino_watchdog w ruta f
         = Some (CARPETA_ORDENADA w
                   @ [categoria_para_extension_watchdog (str_lower (path_suffix ruta)),
                      str_int (year f), MESES_ES ! nat (month f - 1),
                      if day f \<le> 15 then ''1-15'' else ''16-31''])"
    using idx by (simp add: carpeta_destino_watchdog_def Let_def quincena_de_def)
  have same_cli: "buscar s archivo = Some n \<and> mtime n = f \<and> buscar s' archivo' = Some n' \<and> mtime n' = f
         \<and> categoria_para_extension_typer (str_lower (path_suffix archivo))
             = categoria_para_extension_typer (str_lower (path_suffix archivo')) \<longrightarrow>
         destino_para_archivo s archivo base = destino_para_archivo s' archivo' base"
    by (auto simp: destino_para_archivo_def Let_def split: option.splits)
  have same_wd: "categoria_para_extension_watchdog (str_lower (path_suffix ruta))
             = categoria_para_extension_watchdog (str_lower (path_suffix ruta')) \<longrightarrow>
         carpeta_destino_watchdog w ruta f = carpeta_destino_watchdog w ruta' f"
    by (auto simp: carpeta_destino_watchdog_def Let_def split: option.splits)
  from length_MESES_ES cli wd same_cli same_wd show ?thesis by blast
qed

theorem planned_directory_witness:
  "1 \<le> month fecha_ejemplo \<and> month fecha_ejemplo \<le> 12
   \<and> buscar sistema_informe [''root'', ''report.pdf''] = Some (Archivo fecha_ejemplo ''informe'' False)
   \<and> buscar sistema_informe [''root'', ''NOTES.TXT''] = Some (Archivo fecha_ejemplo ''notas'' False)
   \<and> destino_para_archivo sistema_informe [''root'', ''report.pdf''] [''root'']
       = Inr [''root'', ''documentos'', ''2024'', ''marzo'', ''1-15'']
   \<and> destino_para_archivo sistema_informe [''root'', ''NOTES.TXT''] [''root'']
       = destino_para_archivo sistema_informe [''root'', ''report.pdf''] [''root'']"
proof -
  have m: "1 \<le> month fecha_ejemplo" "month fecha_ejemplo \<le> 12"
    by (simp_all add: fecha_ejemplo_def)
  have a: "buscar sistema_informe [''root'', ''report.pdf''] = Some (Archivo fecha_ejemplo ''informe'' False)"
    by (simp add: buscar_def sistema_informe_def)
  have b: "buscar sistema_informe [''root'', ''NOTES.TXT''] = Some (Archivo fecha_ejemplo ''notas'' False)"
    by (simp add: buscar_def sistema_informe_def)
  have c: "categoria_para_extension_typer (str_lower (path_suffix [''root'', ''NOTES.TXT'']))
             = categoria_para_extension_typer (str_lower (path_suffix [''root'', ''report.pdf'']))"
    by code_simp
  have d: "[''root''] @ [categoria_para_extension_typer (str_lower (path_suffix [''root'', ''report.pdf''])),
                          str_int (year fecha_ejemplo), MESES_ES ! nat (month fecha_ejemplo - 1),
                          if day fecha_ejemplo \<le> 15 then ''1-15'' else ''16-31'']
           = [''root'', ''documentos'', ''2024'', ''marzo'', ''1-15'']"
    by code_simp
  have mt: "mtime (Archivo fecha_ejemplo ''informe'' False) = fecha_ejemplo"
    "mtime (Archivo fecha_ejemplo ''notas'' False) = fecha_ejemplo"
    by simp_all
  from planned_directory [OF m, where s = sistema_informe and archivo = "[''root'', ''report.pdf'']"
        and n = "Archivo fecha_ejemplo ''informe'' False" and base = "[''root'']"
        and w = mundo_informe and ruta = "[]" and ruta' = "[]"] a mt
  have "destino_para_archivo sistema_informe [''root'', ''report.pdf''] [''root'']
       = Inr ([''root''] @ [categoria_para_extension_typer (str_lower (path_suffix [''root'', ''report.pdf''])),
                          str_int (year fecha_ejemplo), MESES_ES ! nat (month fecha_ejemplo - 1),
                          if day fecha_ejemplo \<le> 15 then ''1-15'' else ''16-31''])"
    by blast
  with d have e: "destino_para_archivo sistema_informe [''root'', ''report.pdf''] [''root'']
       = Inr [''root'', ''documentos'', ''2024'', ''marzo'', ''1-15'']"
    by simp
  from planned_directory [OF m, where s = sistema_informe and archivo = "[''root'', ''NOTES.TXT'']"
        and n = "Archivo fecha_ejemplo ''notas'' False" and base = "[''root'']"
        and s' = sistema_informe and archivo' = "[''root'', ''report.pdf'']"
        and n' = "Archivo fecha_ejemplo ''informe'' False"
        and w = mundo_informe and ruta = "[]" and ruta' = "[]"] a b c mt
  have f: "destino_para_archivo sistema_informe [''root'', ''NOTES.TXT''] [''root'']
       = destino_para_archivo sistema_informe [''root'', ''report.pdf''] [''root'']"
    by blast
  from m a b e f show ?thesis by simp
qed

section \<open>What the filesystem operations change\<close>

lemma map_of_snoc:
  "map_of (s @ [(p, n)]) q = (case map_of s q of Some v \<Rightarrow> Some v | None \<Rightarrow> if q = p then Some n else None)"
  by (auto simp: map_add_def split: option.splits)

lemma map_of_filter_ne2:
  "map_of (filter (\<lambda>e. fst e \<noteq> a \<and> fst e \<noteq> b) s) q
     = (if q \<noteq> a \<and> q \<noteq> b then map_of s q else None)"
  by (induction s) auto

lemma buscar_snoc:
  "p \<noteq> [] \<Longrightarrow> buscar (s @ [(p, n)]) q
     = (case buscar s q of Some v \<Rightarrow> Some v | None \<Rightarrow> if q = p then Some n else None)"
  by (auto simp: buscar_def map_of_snoc simp del: map_of_append)

lemma mkdir_parents_preserva:
  "mkdir_parents d s p = Inr s' \<Longrightarrow> buscar s q = Some n \<Longrightarrow> buscar s' q = Some n"
proof (induction d s p arbitrary: s' rule: mkdir_parents.induct)
  case (1 d s p)
  show ?case
  proof (cases "buscar s p")
    case None
    with "1.prems"(1) have pne: "p \<noteq> []"
      by (subst (asm) mkdir_parents.simps) (auto split: if_splits)
    from None pne "1.prems"(1) obtain s1 where
      s1: "mkdir_parents d s (butlast p) = Inr s1" and s': "s' = s1 @ [(p, Carpeta d)]"
      by (subst (asm) mkdir_parents.simps) (auto split: sum.splits)
    from "1.IH" [OF None pne s1 "1.prems"(2)] have "buscar s1 q = Some n" .
    with s' pne show ?thesis by (simp add: buscar_snoc)
  next
    case (Some a)
    with "1.prems" show ?thesis
      by (subst (asm) mkdir_parents.simps) (auto split: nodo.splits)
  qed
qed

lemma mkdir_parents_nuevos:
  "mkdir_parents d s p = Inr s' \<Longrightarrow> buscar s q = None \<Longrightarrow>
     buscar s' q = None \<or> (buscar s' q = Some (Carpeta d) \<and> take (length q) p = q)"
proof (induction d s p arbitrary: s' rule: mkdir_parents.induct)
  case (1 d s p)
  show ?case
  proof (cases "buscar s p")
    case None
    with "1.prems"(1) have pne: "p \<noteq> []"
      by (subst (asm) mkdir_parents.simps) (auto split: if_splits)
    from None pne "1.prems"(1) obtain s1 where
      s1: "mkdir_parents d s (butlast p) = Inr s1" and s': "s' = s1 @ [(p, Carpeta d)]"
      by (subst (asm) mkdir_parents.simps) (auto split: sum.splits)
    from "1.IH" [OF None pne s1 "1.prems"(2)]
    have ih: "buscar s1 q = None \<or> (buscar s1 q = Some (Carpeta d) \<and> take (length q) (butlast p) = q)" .
    show ?thesis
    proof (cases "buscar s1 q")
      case None
      with s' pne show ?thesis by (auto simp: buscar_snoc)
    next
      case (Some a)
      with ih have a: "buscar s1 q = Some (Carpeta d)" and t: "take (length q) (butlast p) = q" by auto
      from t have "length (take (length q) (butlast p)) = length q" by simp
      then have le: "length q \<le> length p - 1" by simp
      have "take (length q) (butlast p) = take (length q) p"
        using le by (simp add: butlast_conv_take min_def)
      with t have "take (length q) p = q" by simp
      with a s' pne show ?thesis by (simp add: buscar_snoc)
    qed
  next
    case (Some a)
    with "1.prems" show ?thesis
      by (subst (asm) mkdir_parents.simps) (auto split: nodo.splits)
  qed
qed

lemma mkdir_parents_is_file:
  "mkdir_parents d s p = Inr s' \<Longrightarrow> is_file s' q = is_file s q"
proof -
  assume a: "mkdir_parents d s p = Inr s'"
  show ?thesis
  proof (cases "buscar s q")
    case None
    with mkdir_parents_nuevos [OF a None] show ?thesis by (auto simp: is_file_def)
  next
    case (Some n)
    with mkdir_parents_preserva [OF a Some] show ?thesis by (simp add: is_file_def)
  qed
qed

lemma buscar_os_rename_archivo:
  assumes "buscar s src = Some (Archivo f c b)" and "dst \<noteq> []"
  shows "buscar (os_rename s src dst) q
           = (if q = dst then Some (Archivo f c b) else if q = src then None else buscar s q)"
proof -
  from assms(1) have "src \<noteq> []" by (auto simp: buscar_def split: if_splits)
  with assms show ?thesis
    by (auto simp: os_rename_def buscar_def map_of_snoc map_of_filter_ne2 simp del: map_of_append
          split: option.splits)
qed

lemma shutil_move_archivo:
  assumes "buscar s src = Some (Archivo f c b)" and "\<not> existe s dst"
  shows "shutil_move s src dst = (if b then Inl PermissionError else Inr (os_rename s src dst))"
  using assms by (auto simp: shutil_move_def no_movible_def is_dir_def existe_def)

lemma destino_sin_colision_libre: "\<not> existe s (destino_sin_colision s cd src)"
  by (simp add: destino_sin_colision_def bucle_contador_libre)

lemma destino_sin_colision_forma: "\<exists>nm. destino_sin_colision s cd src = cd @ [nm]"
  unfolding destino_sin_colision_def
  using bucle_contador_cases [of s "cd @ [path_name src]" cd "path_stem src" "path_suffix src" 1]
  by auto

lemma no_existe_antes:
  "mkdir_parents d s cd = Inr s1 \<Longrightarrow> \<not> existe s1 q \<Longrightarrow> \<not> existe s q"
  using mkdir_parents_preserva [of d s cd s1 q] by (cases "buscar s q") (auto simp: existe_def)

text \<open>The core of a relocation: directories, free name, rename.\<close>

lemma reubicar_buscar:
  assumes src: "buscar s src = Some (Archivo f c b)"
    and mk: "mkdir_parents d s cd = Inr s1"
  shows "buscar (os_rename s1 src (destino_sin_colision s1 cd src)) q
           = (if q = destino_sin_colision s1 cd src then Some (Archivo f c b)
              else if q = src then None else buscar s1 q)"
proof -
  from destino_sin_colision_forma [of s1 cd src] have ne: "destino_sin_colision s1 cd src \<noteq> []"
    by auto
  from mkdir_parents_preserva [OF mk src] have "buscar s1 src = Some (Archivo f c b)" .
  from buscar_os_rename_archivo [OF this ne] show ?thesis .
qed

lemma reubicar_shutil:
  assumes src: "buscar s src = Some (Archivo f c b)"
    and mk: "mkdir_parents d s cd = Inr s1"
  shows "shutil_move s1 src (destino_sin_colision s1 cd src)
           = (if b then Inl PermissionError
              else Inr (os_rename s1 src (destino_sin_colision s1 cd src)))"
  using shutil_move_archivo [OF mkdir_parents_preserva [OF mk src] destino_sin_colision_libre] .

lemma reubicar_conserva:
  assumes src: "buscar s src = Some (Archivo f c b)"
    and mk: "mkdir_parents d s cd = Inr s1"
    and q: "q \<noteq> src" "buscar s q = Some n"
  shows "buscar (os_rename s1 src (destino_sin_colision s1 cd src)) q = Some n"
proof -
  from mkdir_parents_preserva [OF mk q(2)] have q1: "buscar s1 q = Some n" .
  then have "existe s1 q" by (simp add: existe_def)
  with destino_sin_colision_libre [of s1 cd src] have "q \<noteq> destino_sin_colision s1 cd src" by auto
  with q1 q(1) show ?thesis by (simp add: reubicar_buscar [OF src mk])
qed

lemma reubicar_is_file:
  assumes src: "buscar s src = Some (Archivo f c b)"
    and mk: "mkdir_parents d s cd = Inr s1"
  shows "is_file (os_rename s1 src (destino_sin_colision s1 cd src)) q
           = (q = destino_sin_colision s1 cd src \<or> (q \<noteq> src \<and> is_file s q))"
  by (auto simp: is_file_def reubicar_buscar [OF src mk] mkdir_parents_is_file [OF mk, unfolded is_file_def])

subsection \<open>Fields that printing and logging leave alone\<close>

lemma imprimir_campos [simp]:
  "fs (imprimir l w) = fs w" "registro (imprimir l w) = registro w"
  "log_ok (imprimir l w) = log_ok w" "hogar (imprimir l w) = hogar w"
  "hoy (imprimir l w) = hoy w" "reloj (imprimir l w) = reloj w"
  "lecturas (imprimir l w) = lecturas w" "salida (imprimir l w) = salida w @ [l]"
  by (simp_all add: imprimir_def)

lemma escribir_log_campos [simp]:
  "fs (escribir_log m w) = fs w" "log_ok (escribir_log m w) = log_ok w"
  "hogar (escribir_log m w) = hogar w" "hoy (escribir_log m w) = hoy w"
  "reloj (escribir_log m w) = reloj w" "salida (escribir_log m w) = salida w"
  by (simp_all add: escribir_log_def)

lemma constantes_campos [simp]:
  "CARPETA_DESCARGAS (imprimir l w) = CARPETA_DESCARGAS w"
  "CARPETA_DESCARGAS (escribir_log m w) = CARPETA_DESCARGAS w"
  "CARPETA_DESCARGAS (w\<lparr>fs := s\<rparr>) = CARPETA_DESCARGAS w"
  "FICHERO_LOG (imprimir l w) = FICHERO_LOG w"
  "FICHERO_LOG (escribir_log m w) = FICHERO_LOG w"
  "FICHERO_LOG (w\<lparr>fs := s\<rparr>) = FICHERO_LOG w"
  by (simp_all add: CARPETA_DESCARGAS_def FICHERO_LOG_def)

text \<open>The watch-mode relocation of a regular file, spelled out.\<close>

lemma mover_y_organizar_archivo:
  assumes src: "buscar (fs w) src = Some (Archivo f c b)"
  shows "mover_y_organizar src w =
     (case carpeta_destino_watchdog w src f of
        None \<Rightarrow> Inl (IndexError, w)
      | Some cd \<Rightarrow>
          (case mkdir_parents (hoy w) (fs w) cd of
             Inl e \<Rightarrow> Inl (e, w)
           | Inr s1 \<Rightarrow>
               if b then Inl (PermissionError,
                              lineas_mover src (destino_sin_colision s1 cd src) (w\<lparr>fs := s1\<rparr>))
               else Inr ((lineas_mover src (destino_sin_colision s1 cd src) (w\<lparr>fs := s1\<rparr>))
                           \<lparr>fs := os_rename s1 src (destino_sin_colision s1 cd src)\<rparr>)))"
  using src
  by (auto simp: mover_y_organizar_def Let_def lineas_mover_def reubicar_shutil [OF src]
        split: option.splits sum.splits)

lemma mover_y_organizar_ausente:
  "buscar (fs w) src = None \<Longrightarrow> mover_y_organizar src w = Inr w"
  by (simp add: mover_y_organizar_def)

lemma lineas_mover_campos [simp]:
  "fs (lineas_mover a d w) = fs w" "log_ok (lineas_mover a d w) = log_ok w"
  "hogar (lineas_mover a d w) = hogar w" "hoy (lineas_mover a d w) = hoy w"
  "reloj (lineas_mover a d w) = reloj w"
  by (simp_all add: lineas_mover_def)

lemma no_dir_casos:
  "\<not> is_dir s p \<Longrightarrow> buscar s p = None \<or> (\<exists>f c b. buscar s p = Some (Archivo f c b))"
  by (auto simp: is_dir_def split: option.splits nodo.splits)

lemma carpeta_destino_watchdog_forma:
  "carpeta_destino_watchdog w src f = Some cd \<Longrightarrow>
     \<exists>a b c d. cd = CARPETA_DESCARGAS w @ [a, b, c, d]"
  by (auto simp: carpeta_destino_watchdog_def CARPETA_ORDENADA_def Let_def split: option.splits)

lemma destino_para_archivo_forma:
  "destino_para_archivo s a base = Inr cd \<Longrightarrow> \<exists>a b c d. cd = base @ [a, b, c, d]"
  by (auto simp: destino_para_archivo_def Let_def split: option.splits)

lemma destino_no_hijo:
  assumes "cd = base @ [a, b, c, d]"
  shows "butlast (destino_sin_colision s cd src) \<noteq> base"
proof -
  from destino_sin_colision_forma [of s cd src] obtain nm where
    "destino_sin_colision s cd src = cd @ [nm]" by auto
  then have "butlast (destino_sin_colision s cd src) = cd" by simp
  with assms show ?thesis by simp
qed

text \<open>One watch-mode relocation attempt on a path that is not a directory.\<close>

lemma mover_conserva:
  assumes nd: "\<not> is_dir (fs w) p"
    and r: "mover_y_organizar p w = Inr w' \<or> mover_y_organizar p w = Inl (e, w')"
    and q: "q \<noteq> p" "buscar (fs w) q = Some n"
  shows "buscar (fs w') q = Some n"
proof -
  from no_dir_casos [OF nd] show ?thesis
  proof
    assume "buscar (fs w) p = None"
    with r q show ?thesis by (auto simp: mover_y_organizar_ausente)
  next
    assume "\<exists>f c b. buscar (fs w) p = Some (Archivo f c b)"
    then obtain f c b where src: "buscar (fs w) p = Some (Archivo f c b)" by blast
    from r q show ?thesis
      by (auto simp: mover_y_organizar_archivo [OF src] reubicar_conserva [OF src]
            mkdir_parents_preserva
            split: option.splits sum.splits if_splits)
  qed
qed

lemma mover_campos:
  assumes "mover_y_organizar p w = Inr w' \<or> mover_y_organizar p w = Inl (e, w')"
  shows "hogar w' = hogar w \<and> hoy w' = hoy w \<and> log_ok w' = log_ok w \<and> reloj w' = reloj w"
  using assms
  by (auto simp: mover_y_organizar_def Let_def split: option.splits sum.splits)

lemma mover_hijos:
  assumes nd: "\<not> is_dir (fs w) p"
    and r: "mover_y_organizar p w = Inr w'"
    and q: "butlast q = CARPETA_DESCARGAS w" "is_file (fs w') q"
  shows "is_file (fs w) q \<and> q \<noteq> p"
proof -
  from no_dir_casos [OF nd] show ?thesis
  proof
    assume a: "buscar (fs w) p = None"
    with r have "w' = w" by (simp add: mover_y_organizar_ausente)
    with q a show ?thesis by (auto simp: is_file_def)
  next
    assume "\<exists>f c b. buscar (fs w) p = Some (Archivo f c b)"
    then obtain f c b where src: "buscar (fs w) p = Some (Archivo f c b)" by blast
    from r obtain cd s1 where
      cd: "carpeta_destino_watchdog w p f = Some cd" and
      mk: "mkdir_parents (hoy w) (fs w) cd = Inr s1" and
      w': "fs w' = os_rename s1 p (destino_sin_colision s1 cd p)"
      by (auto simp: mover_y_organizar_archivo [OF src] split: option.splits sum.splits if_splits)
    from carpeta_destino_watchdog_forma [OF cd] obtain a b c d where
      "cd = CARPETA_DESCARGAS w @ [a, b, c, d]" by blast
    from destino_no_hijo [OF this, of s1 p] q(1)
    have "q \<noteq> destino_sin_colision s1 cd p" by auto
    with q(2) w' show ?thesis by (simp add: reubicar_is_file [OF src mk])
  qed
qed

lemma mover_error_is_file:
  assumes nd: "\<not> is_dir (fs w) p" and r: "mover_y_organizar p w = Inl (e, w')"
  shows "is_file (fs w') q = is_file (fs w) q"
proof -
  from no_dir_casos [OF nd] show ?thesis
  proof
    assume a: "buscar (fs w) p = None"
    with r show ?thesis by (simp add: mover_y_organizar_ausente)
  next
    assume "\<exists>f c b. buscar (fs w) p = Some (Archivo f c b)"
    then obtain f c b where src: "buscar (fs w) p = Some (Archivo f c b)" by blast
    from r show ?thesis
      by (auto simp: mover_y_organizar_archivo [OF src] mkdir_parents_is_file
            split: option.splits sum.splits if_splits)
  qed
qed

section \<open>The watch-mode sweep\<close>

lemma iterdir_set:
  "set (iterdir s d) = {p. p \<noteq> [] \<and> butlast p = d \<and> map_of s p \<noteq> None}"
  by (auto simp: iterdir_def map_of_eq_None_iff image_iff)

lemma iterdir_distinct: "distinct (iterdir s d)"
  by (simp add: iterdir_def)

lemma iterdir_existe: "p \<in> set (iterdir s d) \<Longrightarrow> existe s p"
  by (simp add: iterdir_set existe_def buscar_def)

lemma is_file_en_iterdir: "is_file s q \<Longrightarrow> butlast q = d \<Longrightarrow> q \<in> set (iterdir s d)"
  by (auto simp: iterdir_set is_file_def buscar_def split: option.splits if_splits)

lemma existe_no_dir_is_file: "existe s p \<Longrightarrow> \<not> is_dir s p \<Longrightarrow> is_file s p"
  by (auto simp: existe_def is_dir_def is_file_def split: option.splits nodo.splits)

lemma is_file_no_dir: "is_file s p \<Longrightarrow> \<not> is_dir s p"
  by (auto simp: is_dir_def is_file_def split: option.splits nodo.splits)

lemma paso_existentes_salta:
  "is_dir (fs w) p \<or> p = FICHERO_LOG w \<or> es_temporal p \<Longrightarrow>
     bucle_existentes (p # L) (w, e, m) = bucle_existentes L (w, e, m)"
  by auto

lemma paso_existentes_movido:
  "\<not> (is_dir (fs w) p \<or> p = FICHERO_LOG w \<or> es_temporal p) \<Longrightarrow>
   mover_y_organizar p w = Inr w1 \<Longrightarrow>
     bucle_existentes (p # L) (w, e, m) = bucle_existentes L (w1, e + 1, m + 1)"
  by simp

lemma paso_existentes_error:
  "\<not> (is_dir (fs w) p \<or> p = FICHERO_LOG w \<or> es_temporal p) \<Longrightarrow>
   mover_y_organizar p w = Inl (er, w1) \<Longrightarrow>
     bucle_existentes (p # L) (w, e, m) =
       bucle_existentes L
         (escribir_log (''ERROR al mover existente '' @ str_path p @ '': '' @ str_error er)
            (imprimir (''[ERROR] No se pudo mover existente '' @ str_path p
                         @ '': '' @ str_error er) w1),
          e + 1, m)"
  by simp

declare bucle_existentes.simps(2) [simp del]

lemma bucle_existentes_hogar:
  "bucle_existentes L (w, e, m) = (w', e', m') \<Longrightarrow> hogar w' = hogar w"
proof (induction L arbitrary: w e m)
  case Nil
  then show ?case by simp
next
  case (Cons p L)
  show ?case
  proof (cases "is_dir (fs w) p \<or> p = FICHERO_LOG w \<or> es_temporal p")
    case True
    with Cons.prems have "bucle_existentes L (w, e, m) = (w', e', m')"
      by (simp add: paso_existentes_salta)
    from Cons.IH [OF this] show ?thesis .
  next
    case False
    show ?thesis
    proof (cases "mover_y_organizar p w")
      case (Inr w1)
      with False Cons.prems have "bucle_existentes L (w1, e + 1, m + 1) = (w', e', m')"
        by (simp add: paso_existentes_movido)
      from Cons.IH [OF this] mover_campos [of p w w1] Inr show ?thesis by simp
    next
      case (Inl x)
      obtain er w1 where x: "x = (er, w1)" by (cases x)
      let ?w2 = "escribir_log (''ERROR al mover existente '' @ str_path p @ '': '' @ str_error er)
                     (imprimir (''[ERROR] No se pudo mover existente '' @ str_path p
                                  @ '': '' @ str_error er) w1)"
      from False Cons.prems Inl x have "bucle_existentes L (?w2, e + 1, m) = (w', e', m')"
        by (simp add: paso_existentes_error)
      from Cons.IH [OF this] mover_campos [of p w w1 er] Inl x show ?thesis by simp
    qed
  qed
qed

lemma bucle_existentes_contadores:
  "bucle_existentes L (w, e, m) = (w', e', m') \<Longrightarrow> m' + e \<le> e' + m"
proof (induction L arbitrary: w e m)
  case Nil
  then show ?case by simp
next
  case (Cons p L)
  show ?case
  proof (cases "is_dir (fs w) p \<or> p = FICHERO_LOG w \<or> es_temporal p")
    case True
    with Cons.prems have "bucle_existentes L (w, e, m) = (w', e', m')"
      by (simp add: paso_existentes_salta)
    from Cons.IH [OF this] show ?thesis .
  next
    case False
    show ?thesis
    proof (cases "mover_y_organizar p w")
      case (Inr w1)
      with False Cons.prems have "bucle_existentes L (w1, e + 1, m + 1) = (w', e', m')"
        by (simp add: paso_existentes_movido)
      from Cons.IH [OF this] show ?thesis by simp
    next
      case (Inl x)
      obtain er w1 where x: "x = (er, w1)" by (cases x)
      let ?w2 = "escribir_log (''ERROR al mover existente '' @ str_path p @ '': '' @ str_error er)
                     (imprimir (''[ERROR] No se pudo mover existente '' @ str_path p
                                  @ '': '' @ str_error er) w1)"
      from False Cons.prems Inl x have "bucle_existentes L (?w2, e + 1, m) = (w', e', m')"
        by (simp add: paso_existentes_error)
      from Cons.IH [OF this] show ?thesis by simp
    qed
  qed
qed

lemma bucle_existentes_sin_errores:
  assumes "bucle_existentes L (w, e, m) = (w', e', m')"
    and "m' + e = e' + m"
    and "\<forall>q. pendiente_watchdog w q \<longrightarrow> q \<in> set L"
  shows "\<forall>q. \<not> pendiente_watchdog w' q"
  using assms
proof (induction L arbitrary: w e m)
  case Nil
  then show ?case by simp
next
  case (Cons p L)
  show ?case
  proof (cases "is_dir (fs w) p \<or> p = FICHERO_LOG w \<or> es_temporal p")
    case True
    with Cons.prems have r: "bucle_existentes L (w, e, m) = (w', e', m')"
      by (simp add: paso_existentes_salta)
    from True have "\<not> pendiente_watchdog w p"
      by (auto simp: pendiente_watchdog_def dest: is_file_no_dir)
    with Cons.prems(3) have "\<forall>q. pendiente_watchdog w q \<longrightarrow> q \<in> set L" by auto
    from Cons.IH [OF r Cons.prems(2) this] show ?thesis .
  next
    case False
    then have nd: "\<not> is_dir (fs w) p" by simp
    show ?thesis
    proof (cases "mover_y_organizar p w")
      case (Inr w1)
      with False Cons.prems have r: "bucle_existentes L (w1, e + 1, m + 1) = (w', e', m')"
        by (simp add: paso_existentes_movido)
      from mover_campos [of p w w1] Inr have h: "hogar w1 = hogar w" by simp
      have "\<forall>q. pendiente_watchdog w1 q \<longrightarrow> q \<in> set L"
      proof (intro allI impI)
        fix q assume q: "pendiente_watchdog w1 q"
        then have "butlast q = CARPETA_DESCARGAS w" "is_file (fs w1) q"
          using h by (simp_all add: pendiente_watchdog_def CARPETA_DESCARGAS_def)
        from mover_hijos [OF nd Inr this] have "is_file (fs w) q" "q \<noteq> p" by simp_all
        with q h have "pendiente_watchdog w q"
          by (simp add: pendiente_watchdog_def CARPETA_DESCARGAS_def FICHERO_LOG_def)
        with Cons.prems(3) \<open>q \<noteq> p\<close> show "q \<in> set L" by auto
      qed
      from Cons.IH [OF r _ this] Cons.prems(2) show ?thesis by simp
    next
      case (Inl x)
      obtain er w1 where x: "x = (er, w1)" by (cases x)
      let ?w2 = "escribir_log (''ERROR al mover existente '' @ str_path p @ '': '' @ str_error er)
                     (imprimir (''[ERROR] No se pudo mover existente '' @ str_path p
                                  @ '': '' @ str_error er) w1)"
      from False Cons.prems Inl x have "bucle_existentes L (?w2, e + 1, m) = (w', e', m')"
        by (simp add: paso_existentes_error)
      from bucle_existentes_contadores [OF this] Cons.prems(2) show ?thesis by simp
    qed
  qed
qed

lemma bucle_existentes_nada:
  "\<forall>p\<in>set L. is_dir (fs w) p \<or> p = FICHERO_LOG w \<or> es_temporal p \<Longrightarrow>
     bucle_existentes L (w, e, m) = (w, e, m)"
  by (induction L) (simp_all add: paso_existentes_salta)

section \<open>The command-line sweep\<close>

lemma paso_organizar_salta:
  "\<not> is_file (fs w) a \<or> es_temporal a \<Longrightarrow>
     bucle_organizar c dr (a # L) (w, t, m) = bucle_organizar c dr L (w, t, m)"
  by auto

lemma paso_organizar_cuerpo:
  "\<not> (\<not> is_file (fs w) a \<or> es_temporal a) \<Longrightarrow>
     bucle_organizar c dr (a # L) (w, t, m) =
       (case cuerpo_organizar c dr a w of
          Inl x \<Rightarrow> Inl x
        | Inr w1 \<Rightarrow> bucle_organizar c dr L (w1, t + 1, if dr then m else m + 1))"
  by (auto simp: cuerpo_organizar_def Let_def split: sum.splits)

declare bucle_organizar.simps(2) [simp del]

lemma is_file_casos: "is_file s p \<Longrightarrow> \<exists>f c b. buscar s p = Some (Archivo f c b)"
  by (auto simp: is_file_def split: option.splits nodo.splits)

lemma cuerpo_organizar_archivo:
  assumes src: "buscar (fs w) a = Some (Archivo f c b)"
  shows "cuerpo_organizar carpeta dr a w =
     (case destino_para_archivo (fs w) a carpeta of
        Inl e \<Rightarrow> Inl (e, w)
      | Inr cd \<Rightarrow>
          (case mkdir_parents (hoy w) (fs w) cd of
             Inl e \<Rightarrow> Inl (e, w)
           | Inr s1 \<Rightarrow>
               if dr then Inr (imprimir (''[SIMULAR] '' @ str_path a @ '' -> ''
                             @ str_path (destino_sin_colision s1 cd a)) (w\<lparr>fs := s1\<rparr>))
               else if b then Inl (PermissionError,
                      imprimir (''[MOVER] '' @ str_path a @ '' -> ''
                             @ str_path (destino_sin_colision s1 cd a)) (w\<lparr>fs := s1\<rparr>))
               else Inr ((imprimir (''[MOVER] '' @ str_path a @ '' -> ''
                             @ str_path (destino_sin_colision s1 cd a)) (w\<lparr>fs := s1\<rparr>))
                           \<lparr>fs := os_rename s1 a (destino_sin_colision s1 cd a)\<rparr>)))"
  using src
  by (auto simp: cuerpo_organizar_def Let_def reubicar_shutil [OF src] split: sum.splits)

lemma cuerpo_campos:
  assumes "cuerpo_organizar carpeta dr a w = Inr w' \<or> cuerpo_organizar carpeta dr a w = Inl (e, w')"
  shows "hogar w' = hogar w \<and> hoy w' = hoy w \<and> log_ok w' = log_ok w \<and> reloj w' = reloj w
         \<and> registro w' = registro w \<and> lecturas w' = lecturas w"
  using assms
  by (auto simp: cuerpo_organizar_def Let_def split: sum.splits if_splits)

lemma cuerpo_conserva:
  assumes f: "is_file (fs w) a"
    and r: "cuerpo_organizar carpeta dr a w = Inr w' \<or> cuerpo_organizar carpeta dr a w = Inl (e, w')"
    and q: "q \<noteq> a" "buscar (fs w) q = Some n"
  shows "buscar (fs w') q = Some n"
proof -
  from is_file_casos [OF f] obtain f c b where src: "buscar (fs w) a = Some (Archivo f c b)" by blast
  from r q show ?thesis
    by (auto simp: cuerpo_organizar_archivo [OF src] reubicar_conserva [OF src]
          mkdir_parents_preserva
          split: sum.splits if_splits)
qed

lemma cuerpo_hijos:
  assumes f: "is_file (fs w) a"
    and r: "cuerpo_organizar carpeta False a w = Inr w'"
    and q: "butlast q = carpeta" "is_file (fs w') q"
  shows "is_file (fs w) q \<and> q \<noteq> a"
proof -
  from is_file_casos [OF f] obtain f c b where src: "buscar (fs w) a = Some (Archivo f c b)" by blast
  from r obtain cd s1 where
    cd: "destino_para_archivo (fs w) a carpeta = Inr cd" and
    mk: "mkdir_parents (hoy w) (fs w) cd = Inr s1" and
    w': "fs w' = os_rename s1 a (destino_sin_colision s1 cd a)"
    by (auto simp: cuerpo_organizar_archivo [OF src] split: sum.splits if_splits)
  from destino_para_archivo_forma [OF cd] obtain x y z u where
    "cd = carpeta @ [x, y, z, u]" by blast
  from destino_no_hijo [OF this, of s1 a] q(1)
  have "q \<noteq> destino_sin_colision s1 cd a" by auto
  with q(2) w' show ?thesis by (simp add: reubicar_is_file [OF src mk])
qed

lemma cuerpo_simulado:
  assumes f: "is_file (fs w) a"
    and r: "cuerpo_organizar carpeta True a w = Inr w'"
  shows "is_file (fs w') q = is_file (fs w) q
         \<and> (buscar (fs w) q = Some n \<longrightarrow> buscar (fs w') q = Some n)"
proof -
  from is_file_casos [OF f] obtain f c b where src: "buscar (fs w) a = Some (Archivo f c b)" by blast
  from r show ?thesis
    by (auto simp: cuerpo_organizar_archivo [OF src] mkdir_parents_is_file mkdir_parents_preserva
          split: sum.splits if_splits)
qed

lemma bucle_organizar_nada:
  "\<forall>p\<in>set L. \<not> is_file (fs w) p \<or> es_temporal p \<Longrightarrow>
     bucle_organizar c dr L (w, t, m) = Inr (w, t, m)"
  by (induction L) (simp_all add: paso_organizar_salta)

lemma bucle_organizar_pendientes:
  assumes "bucle_organizar c False L (w, t, m) = Inr (w', t', m')"
    and "\<forall>q. pendiente_typer c w q \<longrightarrow> q \<in> set L"
  shows "\<forall>q. \<not> pendiente_typer c w' q"
  using assms
proof (induction L arbitrary: w t m)
  case Nil
  then show ?case by simp
next
  case (Cons a L)
  show ?case
  proof (cases "\<not> is_file (fs w) a \<or> es_temporal a")
    case True
    with Cons.prems have r: "bucle_organizar c False L (w, t, m) = Inr (w', t', m')"
      by (simp add: paso_organizar_salta)
    from True have "\<not> pendiente_typer c w a" by (auto simp: pendiente_typer_def)
    with Cons.prems(2) have "\<forall>q. pendiente_typer c w q \<longrightarrow> q \<in> set L" by auto
    from Cons.IH [OF r this] show ?thesis .
  next
    case False
    then have f: "is_file (fs w) a" by simp
    from False Cons.prems(1) obtain w1 where
      c1: "cuerpo_organizar c False a w = Inr w1" and
      r: "bucle_organizar c False L (w1, t + 1, m + 1) = Inr (w', t', m')"
      by (auto simp: paso_organizar_cuerpo split: sum.splits)
    have "\<forall>q. pendiente_typer c w1 q \<longrightarrow> q \<in> set L"
    proof (intro allI impI)
      fix q assume q: "pendiente_typer c w1 q"
      then have "butlast q = c" "is_file (fs w1) q" by (simp_all add: pendiente_typer_def)
      from cuerpo_hijos [OF f c1 this] have "is_file (fs w) q" "q \<noteq> a" by simp_all
      with q have "pendiente_typer c w q" by (simp add: pendiente_typer_def)
      with Cons.prems(2) \<open>q \<noteq> a\<close> show "q \<in> set L" by auto
    qed
    from Cons.IH [OF r this] show ?thesis .
  qed
qed

lemma bucle_organizar_carpetas:
  assumes "bucle_organizar c dr L (w, t, m) = Inr (w', t', m')
           \<or> bucle_organizar c dr L (w, t, m) = Inl (e, w')"
    and "is_dir (fs w) q"
  shows "is_dir (fs w') q"
  using assms
proof (induction L arbitrary: w t m)
  case Nil
  then show ?case by simp
next
  case (Cons a L)
  show ?case
  proof (cases "\<not> is_file (fs w) a \<or> es_temporal a")
    case True
    with Cons.prems show ?thesis by (simp add: paso_organizar_salta Cons.IH)
  next
    case False
    then have f: "is_file (fs w) a" by simp
    with Cons.prems(2) have qa: "q \<noteq> a" by (auto dest: is_file_no_dir)
    from Cons.prems(2) obtain n where n: "buscar (fs w) q = Some n"
      by (auto simp: is_dir_def split: option.splits)
    show ?thesis
    proof (cases "cuerpo_organizar c dr a w")
      case (Inl x)
      obtain er w1 where x: "x = (er, w1)" by (cases x)
      with Inl False Cons.prems(1) have "w' = w1" by (simp add: paso_organizar_cuerpo)
      with cuerpo_conserva [OF f _ qa n, of c dr w1 er] Inl x n Cons.prems(2)
      show ?thesis by (simp add: is_dir_def)
    next
      case (Inr w1)
      from cuerpo_conserva [OF f _ qa n, of c dr w1] Inr n Cons.prems(2)
      have "is_dir (fs w1) q" by (simp add: is_dir_def)
      with Inr False Cons.prems(1) show ?thesis
        by (simp add: paso_organizar_cuerpo Cons.IH)
    qed
  qed
qed

lemma bucle_organizar_registro:
  assumes "bucle_organizar c dr L (w, t, m) = Inr (w', t', m')
           \<or> bucle_organizar c dr L (w, t, m) = Inl (e, w')"
  shows "registro w' = registro w"
  using assms
proof (induction L arbitrary: w t m)
  case Nil
  then show ?case by simp
next
  case (Cons a L)
  show ?case
  proof (cases "\<not> is_file (fs w) a \<or> es_temporal a")
    case True
    with Cons.prems show ?thesis by (simp add: paso_organizar_salta Cons.IH)
  next
    case False
    show ?thesis
    proof (cases "cuerpo_organizar c dr a w")
      case (Inl x)
      obtain er w1 where x: "x = (er, w1)" by (cases x)
      with Inl False Cons.prems(1) have "w' = w1" by (simp add: paso_organizar_cuerpo)
      with cuerpo_campos [of c dr a w w1 er] Inl x show ?thesis by simp
    next
      case (Inr w1)
      from cuerpo_campos [of c dr a w w1] Inr have "registro w1 = registro w" by simp
      with Inr False Cons.prems(1) show ?thesis
        by (simp add: paso_organizar_cuerpo Cons.IH)
    qed
  qed
qed

text \<open>
  Whatever the loop over one listing preserves, the loop driven by the lazy walk
  preserves too, however the walk ends.
\<close>

lemma recorrer_invariante:
  assumes paso: "\<And>c dr L w t m w' t' m' e. P w \<Longrightarrow>
      bucle_organizar c dr L (w, t, m) = Inr (w', t', m')
      \<or> bucle_organizar c dr L (w, t, m) = Inl (e, w') \<Longrightarrow> P w'"
  shows "P (fst st) \<Longrightarrow>
           recorrer n c dr d st = Inr (w', t', m') \<or> recorrer n c dr d st = Inl (e, w') \<Longrightarrow>
           P w'"
    and "P (fst st) \<Longrightarrow>
           recorrer_hijos n c dr L st = Inr (w', t', m')
           \<or> recorrer_hijos n c dr L st = Inl (e, w') \<Longrightarrow>
           P w'"
proof (induction n c dr d st and n c dr L st arbitrary: w' t' m' e and w' t' m' e
       rule: recorrer_recorrer_hijos.induct)
  case (1 carpeta dry_run d st)
  then show ?case by auto
next
  case (2 n carpeta dry_run d st)
  obtain w t m where st: "st = (w, t, m)" by (cases st)
  with "2.prems"(1) have pw: "P w" by simp
  show ?case
  proof (cases "bucle_organizar carpeta dry_run (iterdir (fs (fst st)) d) st")
    case (Inl x)
    obtain er w1 where x: "x = (er, w1)" by (cases x)
    from Inl x "2.prems"(2) have w': "w' = w1" by simp
    from Inl x st
    have "bucle_organizar carpeta dry_run (iterdir (fs w) d) (w, t, m) = Inr (w1, t, m)
          \<or> bucle_organizar carpeta dry_run (iterdir (fs w) d) (w, t, m) = Inl (er, w1)"
      by simp
    from paso [OF pw this] w' show ?thesis by simp
  next
    case (Inr st1)
    obtain w1 t1 m1 where st1: "st1 = (w1, t1, m1)" by (cases st1)
    from Inr st st1
    have "bucle_organizar carpeta dry_run (iterdir (fs w) d) (w, t, m) = Inr (w1, t1, m1)
          \<or> bucle_organizar carpeta dry_run (iterdir (fs w) d) (w, t, m) = Inl (e, w1)"
      by simp
    from paso [OF pw this] st1 have p1: "P (fst st1)" by simp
    from Inr "2.prems"(2)
    have "recorrer_hijos n carpeta dry_run
            (filter (is_dir (fs (fst st1))) (iterdir (fs (fst st1)) d)) st1 = Inr (w', t', m')
          \<or> recorrer_hijos n carpeta dry_run
            (filter (is_dir (fs (fst st1))) (iterdir (fs (fst st1)) d)) st1 = Inl (e, w')"
      by simp
    from "2.IH" [OF Inr p1 this] show ?thesis .
  qed
next
  case (3 n carpeta dry_run st)
  then show ?case by auto
next
  case (4 n carpeta dry_run hijo resto st)
  show ?case
  proof (cases "recorrer n carpeta dry_run hijo st")
    case (Inl x)
    obtain er w1 where x: "x = (er, w1)" by (cases x)
    from Inl x "4.prems"(2) have w': "w' = w1" by simp
    from Inl x
    have "recorrer n carpeta dry_run hijo st = Inr (w1, t', m')
          \<or> recorrer n carpeta dry_run hijo st = Inl (er, w1)"
      by simp
    from "4.IH"(1) [OF "4.prems"(1) this] w' show ?thesis by simp
  next
    case (Inr st1)
    obtain w1 t1 m1 where st1: "st1 = (w1, t1, m1)" by (cases st1)
    from Inr st1
    have "recorrer n carpeta dry_run hijo st = Inr (w1, t1, m1)
          \<or> recorrer n carpeta dry_run hijo st = Inl (e, w1)"
      by simp
    from "4.IH"(1) [OF "4.prems"(1) this] st1 have p1: "P (fst st1)" by simp
    from Inr "4.prems"(2)
    have "recorrer_hijos n carpeta dry_run resto st1 = Inr (w', t', m')
          \<or> recorrer_hijos n carpeta dry_run resto st1 = Inl (e, w')"
      by simp
    from "4.IH"(2) [OF Inr p1 this] show ?thesis .
  qed
qed

lemma bucle_iterar_archivos_invariante:
  assumes paso: "\<And>c dr L w t m w' t' m' e. P w \<Longrightarrow>
      bucle_organizar c dr L (w, t, m) = Inr (w', t', m')
      \<or> bucle_organizar c dr L (w, t, m) = Inl (e, w') \<Longrightarrow> P w'"
    and "P w"
    and "bucle_iterar_archivos c rec dr (w, t, m) = Inr (w', t', m')
         \<or> bucle_iterar_archivos c rec dr (w, t, m) = Inl (e, w')"
  shows "P w'"
proof (cases rec)
  case True
  with assms(3) have r: "recorrer limite_recursion c dr c (w, t, m) = Inr (w', t', m')
         \<or> recorrer limite_recursion c dr c (w, t, m) = Inl (e, w')"
    by (simp add: bucle_iterar_archivos_def)
  from assms(2) have "P (fst (w, t, m))" by simp
  from recorrer_invariante(1) [where P = P, OF paso this r] show ?thesis .
next
  case False
  with assms(3) have "bucle_organizar c dr (iterdir (fs w) c) (w, t, m) = Inr (w', t', m')
         \<or> bucle_organizar c dr (iterdir (fs w) c) (w, t, m) = Inl (e, w')"
    by (simp add: bucle_iterar_archivos_def)
  from paso [OF assms(2) this] show ?thesis .
qed

lemma bucle_iterar_archivos_registro:
  assumes "bucle_iterar_archivos c rec dr (w, t, m) = Inr (w', t', m')
           \<or> bucle_iterar_archivos c rec dr (w, t, m) = Inl (e, w')"
  shows "registro w' = registro w"
proof -
  have "\<And>c dr L v t m v' t' m' e. registro v = registro w \<Longrightarrow>
      bucle_organizar c dr L (v, t, m) = Inr (v', t', m')
      \<or> bucle_organizar c dr L (v, t, m) = Inl (e, v') \<Longrightarrow> registro v' = registro w"
    using bucle_organizar_registro by metis
  from bucle_iterar_archivos_invariante [of "\<lambda>v. registro v = registro w", OF this _ assms]
  show ?thesis by simp
qed

section \<open>Running a sweep twice\<close>

text \<open>
  Idempotence of the sweeps that list only the folder itself: when the watch-mode
  initial sweep moved every file it found (no error), or the command-line sweep without
  \<open>--recursivo\<close> and without \<open>--dry-run\<close> ran to its end, a second run of the same sweep
  finds no file, moves none and leaves the filesystem and the log as they are.
\<close>

theorem sweep_twice_moves_nothing:
  "(procesar_archivos_existentes w = (w1, n, n) \<longrightarrow>
      (\<exists>w2. procesar_archivos_existentes w1 = (w2, 0, 0)
            \<and> fs w2 = fs w1 \<and> registro w2 = registro w1))
   \<and> (organizar carpeta False False v = Inr (v1, t, m) \<longrightarrow>
      (\<exists>v2. organizar carpeta False False v1 = Inr (v2, 0, 0)
            \<and> fs v2 = fs v1 \<and> registro v2 = registro v1))"
proof (intro conjI impI)
  assume a: "procesar_archivos_existentes w = (w1, n, n)"
  let ?w0 = "imprimir (CHR 0x0A # ''[INICIO] Procesando archivos existentes en Descargas...'') w"
  from a obtain wa where
    b: "bucle_existentes (iterdir (fs w) (CARPETA_DESCARGAS w)) (?w0, 0, 0) = (wa, n, n)" and
    w1: "w1 = imprimir (''[FIN] Archivos existentes encontrados: '' @ str_nat n
                          @ '', movidos: '' @ str_nat n @ [CHR 0x0A]) wa"
    by (auto simp: procesar_archivos_existentes_def Let_def split: prod.splits)
  have "\<forall>q. pendiente_watchdog ?w0 q \<longrightarrow> q \<in> set (iterdir (fs w) (CARPETA_DESCARGAS w))"
    by (auto simp: pendiente_watchdog_def intro: is_file_en_iterdir)
  from bucle_existentes_sin_errores [OF b _ this] have none: "\<forall>q. \<not> pendiente_watchdog wa q" by simp
  let ?v0 = "imprimir (CHR 0x0A # ''[INICIO] Procesando archivos existentes en Descargas...'') w1"
  have "\<forall>p\<in>set (iterdir (fs ?v0) (CARPETA_DESCARGAS ?v0)).
          is_dir (fs ?v0) p \<or> p = FICHERO_LOG ?v0 \<or> es_temporal p"
  proof
    fix p assume p: "p \<in> set (iterdir (fs ?v0) (CARPETA_DESCARGAS ?v0))"
    then have bl: "butlast p = CARPETA_DESCARGAS wa" and ex: "existe (fs wa) p"
      using w1 by (auto simp: iterdir_set existe_def buscar_def)
    show "is_dir (fs ?v0) p \<or> p = FICHERO_LOG ?v0 \<or> es_temporal p"
    proof (rule ccontr)
      assume neg: "\<not> ?thesis"
      then have "\<not> is_dir (fs wa) p" using w1 by simp
      from existe_no_dir_is_file [OF ex this] bl neg w1 have "pendiente_watchdog wa p"
        by (simp add: pendiente_watchdog_def)
      with none show False by blast
    qed
  qed
  from bucle_existentes_nada [OF this]
  have "bucle_existentes (iterdir (fs ?v0) (CARPETA_DESCARGAS ?v0)) (?v0, 0, 0) = (?v0, 0, 0)" .
  then have "procesar_archivos_existentes w1 =
      (imprimir (''[FIN] Archivos existentes encontrados: '' @ str_nat 0
                          @ '', movidos: '' @ str_nat 0 @ [CHR 0x0A]) ?v0, 0, 0)"
    by (simp add: procesar_archivos_existentes_def Let_def)
  then show "\<exists>w2. procesar_archivos_existentes w1 = (w2, 0, 0)
            \<and> fs w2 = fs w1 \<and> registro w2 = registro w1"
    by simp
next
  assume a: "organizar carpeta False False v = Inr (v1, t, m)"
  let ?v0 = "imprimir (''Carpeta base: '' @ str_path carpeta) v"
  from a have dir: "is_dir (fs v) carpeta"
    by (auto simp: organizar_def split: if_splits)
  with a obtain va where
    b: "bucle_organizar carpeta False (iterdir (fs v) carpeta) (?v0, 0, 0) = Inr (va, t, m)" and
    v1: "v1 = imprimir (''Archivos movidos: '' @ str_nat m)
               (imprimir (CHR 0x0A # ''Archivos analizados: '' @ str_nat t) va)"
    by (auto simp: organizar_def Let_def bucle_iterar_archivos_def split: sum.splits prod.splits)
  have "\<forall>q. pendiente_typer carpeta ?v0 q \<longrightarrow> q \<in> set (iterdir (fs v) carpeta)"
    by (auto simp: pendiente_typer_def intro: is_file_en_iterdir)
  from bucle_organizar_pendientes [OF b this] have none: "\<forall>q. \<not> pendiente_typer carpeta va q" .
  from dir have "is_dir (fs ?v0) carpeta" by simp
  from bucle_organizar_carpetas [OF disjI1 [OF b] this]
  have dir1: "is_dir (fs v1) carpeta" using v1 by simp
  let ?u0 = "imprimir (''Carpeta base: '' @ str_path carpeta) v1"
  have "\<forall>p\<in>set (iterdir (fs ?u0) carpeta). \<not> is_file (fs ?u0) p \<or> es_temporal p"
  proof
    fix p assume p: "p \<in> set (iterdir (fs ?u0) carpeta)"
    then have bl: "butlast p = carpeta" by (simp add: iterdir_set)
    show "\<not> is_file (fs ?u0) p \<or> es_temporal p"
    proof (rule ccontr)
      assume neg: "\<not> ?thesis"
      with bl v1 have "pendiente_typer carpeta va p" by (simp add: pendiente_typer_def)
      with none show False by blast
    qed
  qed
  from bucle_organizar_nada [OF this]
  have "bucle_organizar carpeta False (iterdir (fs ?u0) carpeta) (?u0, 0, 0) = Inr (?u0, 0, 0)" .
  with dir1 have "organizar carpeta False False v1 =
      Inr (imprimir (''Archivos movidos: '' @ str_nat 0)
             (imprimir (CHR 0x0A # ''Archivos analizados: '' @ str_nat 0) ?u0), 0, 0)"
    by (simp add: organizar_def Let_def bucle_iterar_archivos_def)
  then show "\<exists>v2. organizar carpeta False False v1 = Inr (v2, 0, 0)
            \<and> fs v2 = fs v1 \<and> registro v2 = registro v1"
    by simp
qed

theorem sweep_twice_moves_nothing_witness:
  "procesar_archivos_existentes mundo_descargas
     = (fst (procesar_archivos_existentes mundo_descargas), 2, 2)
   \<and> snd (procesar_archivos_existentes (fst (procesar_archivos_existentes mundo_descargas)))
     = (0, 0)
   \<and> organizar DESCARGAS False False mundo_descargas
     = Inr (fst (projr (organizar DESCARGAS False False mundo_descargas)), 2, 2)
   \<and> snd (projr (organizar DESCARGAS False False
                   (fst (projr (organizar DESCARGAS False False mundo_descargas)))))
     = (0, 0)"
proof -
  have "snd (procesar_archivos_existentes mundo_descargas) = (2, 2)" by code_simp
  then have a: "procesar_archivos_existentes mundo_descargas
     = (fst (procesar_archivos_existentes mundo_descargas), 2, 2)"
    by (metis prod.collapse)
  have "\<not> isl (organizar DESCARGAS False False mundo_descargas)
        \<and> snd (projr (organizar DESCARGAS False False mundo_descargas)) = (2, 2)"
    by code_simp
  then have b: "organizar DESCARGAS False False mundo_descargas
     = Inr (fst (projr (organizar DESCARGAS False False mundo_descargas)), 2, 2)"
    by (metis prod.collapse sum.collapse(2))
  from sweep_twice_moves_nothing
         [where w = mundo_descargas and n = 2
            and ?w1.0 = "fst (procesar_archivos_existentes mundo_descargas)"
            and carpeta = DESCARGAS and v = mundo_descargas and t = 2 and m = 2
            and ?v1.0 = "fst (projr (organizar DESCARGAS False False mundo_descargas))"] a b
  show ?thesis by auto
qed

text \<open>
  Claim C5 against the code. The recursive command-line sweep walks the organised tree
  itself and meets each file in its own destination directory. There \<open>destino.exists()\<close>
  is true of the very file being moved, so the collision loop takes the file for a
  collision and renames it. On a folder holding one organised report, a recursive run
  moves \<open>report.pdf\<close> to \<open>report_1.pdf\<close>, and a second run moves one file again, to
  \<open>report_1_1.pdf\<close>: the sweep is not idempotent.
\<close>

theorem recursive_sweep_moves_file_in_place:
  "\<not> isl (organizar DESCARGAS True False mundo_organizado)
   \<and> snd (projr (organizar DESCARGAS True False mundo_organizado)) = (1, 1)
   \<and> is_file (fs (fst (projr (organizar DESCARGAS True False mundo_organizado))))
       (QUINCENA_INFORME @ [''report_1.pdf''])
   \<and> \<not> isl (organizar DESCARGAS True False
               (fst (projr (organizar DESCARGAS True False mundo_organizado))))
   \<and> snd (projr (organizar DESCARGAS True False
                   (fst (projr (organizar DESCARGAS True False mundo_organizado)))))
       = (1, 1)
   \<and> is_file (fs (fst (projr (organizar DESCARGAS True False
                   (fst (projr (organizar DESCARGAS True False mundo_organizado)))))))
       (QUINCENA_INFORME @ [''report_1_1.pdf''])"
  by code_simp

text \<open>
  The same happens within one recursive run over a folder that is not organised yet: the
  walk enters the bucket directories the run has just filled, so both files are analysed
  and moved twice and end as \<open>report_1.pdf\<close> and \<open>photo_1.jpg\<close>.
\<close>

lemma recursive_sweep_revisits_moved_files:
  "\<not> isl (organizar DESCARGAS True False mundo_descargas)
   \<and> snd (projr (organizar DESCARGAS True False mundo_descargas)) = (4, 4)
   \<and> is_file (fs (fst (projr (organizar DESCARGAS True False mundo_descargas))))
       (QUINCENA_INFORME @ [''report_1.pdf''])
   \<and> \<not> existe (fs (fst (projr (organizar DESCARGAS True False mundo_descargas))))
       (QUINCENA_INFORME @ [''report.pdf''])"
  by code_simp

section \<open>Relocation never overwrites\<close>

lemma mkdir_parents_hijo:
  assumes mk: "mkdir_parents d s cd = Inr s1"
  shows "existe s1 (cd @ [x]) = existe s (cd @ [x])"
proof (cases "buscar s (cd @ [x])")
  case None
  from mkdir_parents_nuevos [OF mk None] have "buscar s1 (cd @ [x]) = None" by auto
  with None show ?thesis by (simp add: existe_def)
next
  case (Some n)
  from mkdir_parents_preserva [OF mk Some] Some show ?thesis by (simp add: existe_def)
qed

lemma destino_nombre_final:
  assumes mk: "mkdir_parents d s cd = Inr s1"
  shows "nombre_final s cd src (destino_sin_colision s1 cd src)"
  using bucle_contador_cases [of s1 "cd @ [path_name src]" cd "path_stem src" "path_suffix src" 1]
  unfolding nombre_final_def destino_sin_colision_def nombre_con_sufijo_def
    mkdir_parents_hijo [OF mk]
  by auto

lemma reubicar_reubicado:
  assumes src: "buscar s src = Some (Archivo f c b)"
    and mk: "mkdir_parents d s cd = Inr s1"
  shows "reubicado s (os_rename s1 src (destino_sin_colision s1 cd src)) src
           (destino_sin_colision s1 cd src)"
proof -
  let ?dst = "destino_sin_colision s1 cd src"
  have libre: "\<not> existe s1 ?dst" by (rule destino_sin_colision_libre)
  from no_existe_antes [OF mk libre] have l0: "\<not> existe s ?dst" .
  with src have ne: "src \<noteq> ?dst" by (auto simp: existe_def)
  show ?thesis
    unfolding reubicado_def
    using l0 ne src reubicar_conserva [OF src mk]
    by (auto simp: reubicar_buscar [OF src mk])
qed

text \<open>
  Claim C1. Whenever either script relocates a regular file, the destination is the
  file's own name in the planned directory when that name is free, and otherwise
  \<open>stem_k.suffix\<close> for the first counter \<open>k = 1, 2, ...\<close> whose name is free; the
  destination did not exist before the move, it holds the file afterwards, and every
  other entry of the filesystem is untouched. So a file that already sits in the
  destination directory under the same name survives, and the newcomer gets a distinct
  name.
\<close>

theorem relocation_never_overwrites:
  assumes "buscar (fs w) src = Some (Archivo f c b)"
  shows "(mover_y_organizar src w = Inr w' \<longrightarrow>
            (\<exists>cd dst. carpeta_destino_watchdog w src f = Some cd
               \<and> nombre_final (fs w) cd src dst \<and> reubicado (fs w) (fs w') src dst))
       \<and> (\<not> es_temporal src \<and> bucle_organizar carpeta False [src] (w, t, m) = Inr (v', t', m') \<longrightarrow>
            (\<exists>cd dst. destino_para_archivo (fs w) src carpeta = Inr cd
               \<and> nombre_final (fs w) cd src dst \<and> reubicado (fs w) (fs v') src dst))"
proof (intro conjI impI)
  assume r: "mover_y_organizar src w = Inr w'"
  then obtain cd s1 where
    cd: "carpeta_destino_watchdog w src f = Some cd" and
    mk: "mkdir_parents (hoy w) (fs w) cd = Inr s1" and
    w': "fs w' = os_rename s1 src (destino_sin_colision s1 cd src)"
    by (auto simp: mover_y_organizar_archivo [OF assms] split: option.splits sum.splits if_splits)
  from cd destino_nombre_final [OF mk] reubicar_reubicado [OF assms mk] w'
  show "\<exists>cd dst. carpeta_destino_watchdog w src f = Some cd
               \<and> nombre_final (fs w) cd src dst \<and> reubicado (fs w) (fs w') src dst"
    by auto
next
  assume a: "\<not> es_temporal src \<and> bucle_organizar carpeta False [src] (w, t, m) = Inr (v', t', m')"
  note src = assms
  then have "is_file (fs w) src" by (simp add: is_file_def)
  with a have "cuerpo_organizar carpeta False src w = Inr v'"
    by (auto simp: paso_organizar_cuerpo split: sum.splits)
  then obtain cd s1 where
    cd: "destino_para_archivo (fs w) src carpeta = Inr cd" and
    mk: "mkdir_parents (hoy w) (fs w) cd = Inr s1" and
    v': "fs v' = os_rename s1 src (destino_sin_colision s1 cd src)"
    by (auto simp: cuerpo_organizar_archivo [OF src] split: sum.splits if_splits)
  from cd destino_nombre_final [OF mk] reubicar_reubicado [OF src mk] v' a
  show "\<exists>cd dst. destino_para_archivo (fs w) src carpeta = Inr cd
               \<and> nombre_final (fs w) cd src dst \<and> reubicado (fs w) (fs v') src dst"
    by auto
qed

theorem relocation_never_overwrites_witness:
  "buscar (fs mundo_foto) (DESCARGAS @ [''photo.jpg''])
     = Some (Archivo \<lparr>year = 2023, month = 12, day = 24\<rparr> ''foto'' False)
   \<and> (\<exists>cd dst. carpeta_destino_watchdog mundo_foto (DESCARGAS @ [''photo.jpg''])
                   \<lparr>year = 2023, month = 12, day = 24\<rparr> = Some cd
         \<and> nombre_final (fs mundo_foto) cd (DESCARGAS @ [''photo.jpg'']) dst
         \<and> reubicado (fs mundo_foto)
              (fs (projr (mover_y_organizar (DESCARGAS @ [''photo.jpg'']) mundo_foto)))
              (DESCARGAS @ [''photo.jpg'']) dst)
   \<and> buscar (fs (projr (mover_y_organizar (DESCARGAS @ [''photo.jpg'']) mundo_foto)))
         (QUINCENA_FOTO @ [''photo_1.jpg''])
       = Some (Archivo \<lparr>year = 2023, month = 12, day = 24\<rparr> ''foto'' False)
   \<and> buscar (fs (projr (mover_y_organizar (DESCARGAS @ [''photo.jpg'']) mundo_foto)))
         (QUINCENA_FOTO @ [''photo.jpg''])
       = Some (Archivo \<lparr>year = 2023, month = 12, day = 20\<rparr> ''otra foto'' False)
   \<and> \<not> es_temporal (DESCARGAS @ [''photo.jpg''])
   \<and> (\<exists>cd dst. destino_para_archivo (fs mundo_foto) (DESCARGAS @ [''photo.jpg'']) DESCARGAS = Inr cd
         \<and> nombre_final (fs mundo_foto) cd (DESCARGAS @ [''photo.jpg'']) dst
         \<and> reubicado (fs mundo_foto)
              (fs (fst (projr (bucle_organizar DESCARGAS False [DESCARGAS @ [''photo.jpg'']]
                                 (mundo_foto, 0, 0)))))
              (DESCARGAS @ [''photo.jpg'']) dst)"
proof -
  let ?src = "DESCARGAS @ [''photo.jpg'']"
  let ?f = "\<lparr>year = 2023, month = 12, day = 24\<rparr>"
  have a: "buscar (fs mundo_foto) ?src = Some (Archivo ?f ''foto'' False)"
    by code_simp
  have "\<not> isl (mover_y_organizar ?src mundo_foto)"
    by code_simp
  then have b: "mover_y_organizar ?src mundo_foto = Inr (projr (mover_y_organizar ?src mundo_foto))"
    by simp
  have c: "buscar (fs (projr (mover_y_organizar ?src mundo_foto))) (QUINCENA_FOTO @ [''photo_1.jpg''])
       = Some (Archivo ?f ''foto'' False)"
    by code_simp
  have d: "buscar (fs (projr (mover_y_organizar ?src mundo_foto))) (QUINCENA_FOTO @ [''photo.jpg''])
       = Some (Archivo \<lparr>year = 2023, month = 12, day = 20\<rparr> ''otra foto'' False)"
    by code_simp
  have e: "\<not> es_temporal ?src"
    by code_simp
  have "\<not> isl (bucle_organizar DESCARGAS False [?src] (mundo_foto, 0, 0))
        \<and> snd (projr (bucle_organizar DESCARGAS False [?src] (mundo_foto, 0, 0))) = (1, 1)"
    by code_simp
  then have g: "bucle_organizar DESCARGAS False [?src] (mundo_foto, 0, 0)
      = Inr (fst (projr (bucle_organizar DESCARGAS False [?src] (mundo_foto, 0, 0))), 1, 1)"
    by (metis prod.collapse sum.collapse(2))
  from relocation_never_overwrites [OF a,
         where w' = "projr (mover_y_organizar ?src mundo_foto)" and carpeta = DESCARGAS
           and t = 0 and m = 0 and t' = 1 and m' = 1
           and v' = "fst (projr (bucle_organizar DESCARGAS False [?src] (mundo_foto, 0, 0)))"]
    a b c d e g
  show ?thesis by blast
qed

section \<open>Temporary downloads\<close>

lemma bucle_existentes_sin_temporal:
  "es_temporal r \<Longrightarrow> bucle_existentes L st = bucle_existentes (removeAll r L) st"
proof (induction L arbitrary: st)
  case Nil
  then show ?case by simp
next
  case (Cons p L)
  obtain w e m where st: "st = (w, e, m)" by (cases st)
  show ?case
  proof (cases "p = r")
    case True
    with Cons st show ?thesis by (simp add: paso_existentes_salta)
  next
    case False
    with Cons st show ?thesis
      by (simp add: bucle_existentes.simps(2) split: sum.splits prod.splits)
  qed
qed

lemma bucle_organizar_sin_temporal:
  "es_temporal r \<Longrightarrow> bucle_organizar c dr L st = bucle_organizar c dr (removeAll r L) st"
proof (induction L arbitrary: st)
  case Nil
  then show ?case by simp
next
  case (Cons p L)
  obtain w t m where st: "st = (w, t, m)" by (cases st)
  show ?case
  proof (cases "p = r")
    case True
    with Cons st show ?thesis by (simp add: paso_organizar_salta)
  next
    case False
    then have ra: "removeAll r (p # L) = p # removeAll r L" by simp
    note ih = Cons.IH [OF Cons.prems]
    show ?thesis
    proof (cases "\<not> is_file (fs w) p \<or> es_temporal p")
      case True
      then show ?thesis unfolding st ra by (simp add: paso_organizar_salta ih)
    next
      case False
      then show ?thesis unfolding st ra using ih
        by (cases dr) (auto simp: paso_organizar_cuerpo split: sum.splits)
    qed
  qed
qed

lemma bucle_existentes_temporal:
  assumes "es_temporal r" and "buscar (fs w) r = Some n"
    and "bucle_existentes L (w, e, m) = (w', e', m')"
  shows "buscar (fs w') r = Some n"
  using assms
proof (induction L arbitrary: w e m)
  case Nil
  then show ?case by simp
next
  case (Cons p L)
  show ?case
  proof (cases "is_dir (fs w) p \<or> p = FICHERO_LOG w \<or> es_temporal p")
    case True
    with Cons.prems have "bucle_existentes L (w, e, m) = (w', e', m')"
      by (simp add: paso_existentes_salta)
    from Cons.IH [OF Cons.prems(1,2) this] show ?thesis .
  next
    case False
    then have nd: "\<not> is_dir (fs w) p" and pr: "r \<noteq> p" using Cons.prems(1) by auto
    show ?thesis
    proof (cases "mover_y_organizar p w")
      case (Inr w1)
      with False Cons.prems have r: "bucle_existentes L (w1, e + 1, m + 1) = (w', e', m')"
        by (simp add: paso_existentes_movido)
      from mover_conserva [OF nd disjI1 [OF Inr] pr Cons.prems(2)]
      have "buscar (fs w1) r = Some n" .
      from Cons.IH [OF Cons.prems(1) this r] show ?thesis .
    next
      case (Inl x)
      obtain er w1 where x: "x = (er, w1)" by (cases x)
      let ?w2 = "escribir_log (''ERROR al mover existente '' @ str_path p @ '': '' @ str_error er)
                     (imprimir (''[ERROR] No se pudo mover existente '' @ str_path p
                                  @ '': '' @ str_error er) w1)"
      from False Cons.prems Inl x have r: "bucle_existentes L (?w2, e + 1, m) = (w', e', m')"
        by (simp add: paso_existentes_error)
      from Inl x have "mover_y_organizar p w = Inl (er, w1)" by simp
      from mover_conserva [OF nd disjI2 [OF this] pr Cons.prems(2)]
      have "buscar (fs ?w2) r = Some n" by simp
      from Cons.IH [OF Cons.prems(1) this r] show ?thesis .
    qed
  qed
qed

lemma bucle_organizar_temporal:
  assumes "es_temporal r" and "buscar (fs w) r = Some n"
    and "bucle_organizar c dr L (w, t, m) = Inr (w', t', m')
         \<or> bucle_organizar c dr L (w, t, m) = Inl (e, w')"
  shows "buscar (fs w') r = Some n"
  using assms
proof (induction L arbitrary: w t m)
  case Nil
  then show ?case by auto
next
  case (Cons a L)
  show ?case
  proof (cases "\<not> is_file (fs w) a \<or> es_temporal a")
    case True
    with Cons.prems(3) have "bucle_organizar c dr L (w, t, m) = Inr (w', t', m')
         \<or> bucle_organizar c dr L (w, t, m) = Inl (e, w')"
      by (simp add: paso_organizar_salta)
    from Cons.IH [OF Cons.prems(1,2) this] show ?thesis .
  next
    case False
    then have f: "is_file (fs w) a" and ar: "r \<noteq> a" using Cons.prems(1) by auto
    show ?thesis
    proof (cases "cuerpo_organizar c dr a w")
      case (Inl x)
      obtain er w1 where x: "x = (er, w1)" by (cases x)
      with Inl False Cons.prems(3) have "w' = w1" by (simp add: paso_organizar_cuerpo)
      with cuerpo_conserva [OF f _ ar Cons.prems(2), of c dr w1 er] Inl x show ?thesis by simp
    next
      case (Inr w1)
      from cuerpo_conserva [OF f disjI1 [OF Inr] ar Cons.prems(2)]
      have b: "buscar (fs w1) r = Some n" .
      from Inr False Cons.prems(3)
      have "bucle_organizar c dr L (w1, t + 1, if dr then m else m + 1) = Inr (w', t', m')
         \<or> bucle_organizar c dr L (w1, t + 1, if dr then m else m + 1) = Inl (e, w')"
        by (simp add: paso_organizar_cuerpo)
      from Cons.IH [OF Cons.prems(1) b this] show ?thesis .
    qed
  qed
qed

lemma bucle_iterar_archivos_temporal:
  assumes "es_temporal r" and "buscar (fs w) r = Some n"
    and "bucle_iterar_archivos c rec dr (w, t, m) = Inr (w', t', m')
         \<or> bucle_iterar_archivos c rec dr (w, t, m) = Inl (e, w')"
  shows "buscar (fs w') r = Some n"
proof -
  have "\<And>c dr L v t m v' t' m' e. buscar (fs v) r = Some n \<Longrightarrow>
      bucle_organizar c dr L (v, t, m) = Inr (v', t', m')
      \<or> bucle_organizar c dr L (v, t, m) = Inl (e, v') \<Longrightarrow> buscar (fs v') r = Some n"
    using bucle_organizar_temporal [OF assms(1)] by metis
  from bucle_iterar_archivos_invariante [of "\<lambda>v. buscar (fs v) r = Some n", OF this assms(2,3)]
  show ?thesis .
qed

lemma organizar_casos:
  assumes "organizar carpeta recursivo dry_run w = Inr (w', t, m)
           \<or> organizar carpeta recursivo dry_run w = Inl (e, w')"
  shows "(\<not> is_dir (fs w) carpeta \<and> w' = w)
       \<or> (\<exists>w2 w3 t3 m3. fs w2 = fs w \<and> registro w2 = registro w
             \<and> (bucle_iterar_archivos carpeta recursivo dry_run (w2, 0, 0) = Inr (w3, t3, m3)
                \<or> bucle_iterar_archivos carpeta recursivo dry_run (w2, 0, 0) = Inl (e, w3))
             \<and> fs w' = fs w3 \<and> registro w' = registro w3)"
proof (cases "is_dir (fs w) carpeta")
  case False
  with assms show ?thesis by (auto simp: organizar_def)
next
  case True
  obtain w2 where w2: "w2 = (let w0 = imprimir (''Carpeta base: '' @ str_path carpeta) w;
            w1 = (if dry_run
                  then imprimir (''Modo: simulaci'' @ [CHR 0xF3] @ ''n (no se mover''
                                   @ [CHR 0xE1] @ ''n archivos)'') w0
                  else w0)
        in (if recursivo
                  then imprimir ''Recorrido: recursivo (incluye subcarpetas)'' w1 else w1))"
    by simp
  then have f2: "fs w2 = fs w" "registro w2 = registro w" by (simp_all add: Let_def)
  let ?r = "bucle_iterar_archivos carpeta recursivo dry_run (w2, 0, 0)"
  have org: "organizar carpeta recursivo dry_run w =
     (case ?r of Inl x \<Rightarrow> Inl x
      | Inr (w3, total_analizados, movidos) \<Rightarrow>
          Inr (if dry_run
               then imprimir (''Movimientos simulados: '' @ str_nat total_analizados)
                      (imprimir (CHR 0x0A # ''Archivos analizados: '' @ str_nat total_analizados) w3)
               else imprimir (''Archivos movidos: '' @ str_nat movidos)
                      (imprimir (CHR 0x0A # ''Archivos analizados: '' @ str_nat total_analizados) w3),
               total_analizados, movidos))"
    using True f2 unfolding organizar_def w2 Let_def
    by (simp split: sum.splits prod.splits)
  show ?thesis
  proof (cases ?r)
    case (Inl x)
    obtain er w1 where x: "x = (er, w1)" by (cases x)
    with Inl org assms have "e = er" "w' = w1" by simp_all
    with Inl x f2 show ?thesis by auto
  next
    case (Inr y)
    obtain w3 t3 m3 where y: "y = (w3, t3, m3)" by (cases y)
    with Inr org assms have "fs w' = fs w3" "registro w' = registro w3"
      by (auto split: if_splits)
    with Inr y f2 show ?thesis by auto
  qed
qed

text \<open>
  Claim C6. A path whose extension, lowercased, is \<open>.crdownload\<close>, \<open>.part\<close> or \<open>.tmp\<close> is
  left alone by every entry point. The event handlers return the world unchanged for it
  (the check comes before the relocation is called). The watch-mode sweep and the
  command-line sweep run exactly as if the path were not listed, so it causes no move,
  no log entry and no output; and when the path exists, it still holds the same file
  after either sweep, whether the sweep ends normally or with an error.
\<close>

theorem temporary_files_left_alone:
  assumes "es_temporal r"
  shows "on_created (ev\<lparr>src_path := r\<rparr>) w = w
       \<and> on_moved (ev\<lparr>dest_path := r\<rparr>) w = w
       \<and> bucle_existentes L st = bucle_existentes (removeAll r L) st
       \<and> bucle_organizar carpeta dry_run L st' = bucle_organizar carpeta dry_run (removeAll r L) st'
       \<and> (buscar (fs w) r = Some n \<longrightarrow>
            buscar (fs (fst (procesar_archivos_existentes w))) r = Some n)
       \<and> (buscar (fs w) r = Some n
            \<and> (organizar carpeta recursivo dry_run w = Inr (w', t, m)
               \<or> organizar carpeta recursivo dry_run w = Inl (e, w')) \<longrightarrow>
            buscar (fs w') r = Some n)"
proof (intro conjI impI)
  show "on_created (ev\<lparr>src_path := r\<rparr>) w = w"
    using assms by (simp add: on_created_def procesar_archivo_nuevo_def)
  show "on_moved (ev\<lparr>dest_path := r\<rparr>) w = w"
    using assms by (simp add: on_moved_def procesar_archivo_nuevo_def)
  show "bucle_existentes L st = bucle_existentes (removeAll r L) st"
    using assms by (rule bucle_existentes_sin_temporal)
  show "bucle_organizar carpeta dry_run L st' = bucle_organizar carpeta dry_run (removeAll r L) st'"
    using assms by (rule bucle_organizar_sin_temporal)
next
  assume b: "buscar (fs w) r = Some n"
  let ?w0 = "imprimir (CHR 0x0A # ''[INICIO] Procesando archivos existentes en Descargas...'') w"
  obtain wa ea ma where
    l: "bucle_existentes (iterdir (fs ?w0) (CARPETA_DESCARGAS ?w0)) (?w0, 0, 0) = (wa, ea, ma)"
    by (metis prod.exhaust)
  from b have "buscar (fs ?w0) r = Some n" by simp
  from bucle_existentes_temporal [OF assms this l] have "buscar (fs wa) r = Some n" .
  with l show "buscar (fs (fst (procesar_archivos_existentes w))) r = Some n"
    by (simp add: procesar_archivos_existentes_def Let_def)
next
  assume a: "buscar (fs w) r = Some n
            \<and> (organizar carpeta recursivo dry_run w = Inr (w', t, m)
               \<or> organizar carpeta recursivo dry_run w = Inl (e, w'))"
  then have o: "organizar carpeta recursivo dry_run w = Inr (w', t, m)
               \<or> organizar carpeta recursivo dry_run w = Inl (e, w')" by simp
  from organizar_casos [OF o] show "buscar (fs w') r = Some n"
  proof
    assume "\<not> is_dir (fs w) carpeta \<and> w' = w"
    with a show ?thesis by simp
  next
    assume "\<exists>w2 w3 t3 m3. fs w2 = fs w \<and> registro w2 = registro w
             \<and> (bucle_iterar_archivos carpeta recursivo dry_run (w2, 0, 0) = Inr (w3, t3, m3)
                \<or> bucle_iterar_archivos carpeta recursivo dry_run (w2, 0, 0) = Inl (e, w3))
             \<and> fs w' = fs w3 \<and> registro w' = registro w3"
    then obtain w2 w3 t3 m3 where
      f2: "fs w2 = fs w" and
      l: "bucle_iterar_archivos carpeta recursivo dry_run (w2, 0, 0) = Inr (w3, t3, m3)
          \<or> bucle_iterar_archivos carpeta recursivo dry_run (w2, 0, 0) = Inl (e, w3)" and
      f3: "fs w' = fs w3"
      by blast
    from a f2 have "buscar (fs w2) r = Some n" by simp
    from bucle_iterar_archivos_temporal [OF assms this l] f3 show ?thesis by simp
  qed
qed

theorem temporary_files_left_alone_witness:
  "es_temporal (DESCARGAS @ [''video.mp4.CRDOWNLOAD''])
   \<and> buscar (fs mundo_descargas) (DESCARGAS @ [''video.mp4.CRDOWNLOAD''])
       = Some (Archivo fecha_ejemplo ''parcial'' False)
   \<and> on_created \<lparr>is_directory = False, src_path = DESCARGAS @ [''video.mp4.CRDOWNLOAD''],
                  dest_path = []\<rparr> mundo_descargas = mundo_descargas
   \<and> buscar (fs (fst (procesar_archivos_existentes mundo_descargas)))
         (DESCARGAS @ [''video.mp4.CRDOWNLOAD''])
       = Some (Archivo fecha_ejemplo ''parcial'' False)"
proof -
  let ?r = "DESCARGAS @ [''video.mp4.CRDOWNLOAD'']"
  have a: "es_temporal ?r" by code_simp
  have b: "buscar (fs mundo_descargas) ?r = Some (Archivo fecha_ejemplo ''parcial'' False)"
    by code_simp
  from temporary_files_left_alone [OF a,
      where ev = "\<lparr>is_directory = False, src_path = [], dest_path = []\<rparr>"
        and w = mundo_descargas and n = "Archivo fecha_ejemplo ''parcial'' False"] a b
  show ?thesis by simp
qed

section \<open>Failures during a sweep\<close>

lemma is_file_buscar: "buscar s q = Some n \<Longrightarrow> buscar s' q = Some n \<Longrightarrow> is_file s' q = is_file s q"
  by (simp add: is_file_def)

lemma bucle_existentes_encontrados:
  assumes "distinct L" and "\<forall>q\<in>set L. existe (fs w) q"
    and "bucle_existentes L (w, e, m) = (w', e', m')"
  shows "e' = e + length (filter (elegible_watchdog w) L)"
  using assms
proof (induction L arbitrary: w e m)
  case Nil
  then show ?case by simp
next
  case (Cons p L)
  from Cons.prems(1) have dL: "distinct L" and pL: "p \<notin> set L" by simp_all
  from Cons.prems(2) have exL: "\<forall>q\<in>set L. existe (fs w) q" and exp: "existe (fs w) p" by simp_all
  show ?case
  proof (cases "is_dir (fs w) p \<or> p = FICHERO_LOG w \<or> es_temporal p")
    case True
    then have "\<not> elegible_watchdog w p"
      by (auto simp: elegible_watchdog_def dest: is_file_no_dir)
    moreover from True Cons.prems(3) have "bucle_existentes L (w, e, m) = (w', e', m')"
      by (simp add: paso_existentes_salta)
    ultimately show ?thesis using Cons.IH [OF dL exL] by simp
  next
    case False
    then have nd: "\<not> is_dir (fs w) p" by simp
    from existe_no_dir_is_file [OF exp nd] False have el: "elegible_watchdog w p"
      by (simp add: elegible_watchdog_def)
    have paso: "\<And>w1 er. mover_y_organizar p w = Inr w1 \<or> mover_y_organizar p w = Inl (er, w1) \<Longrightarrow>
        (\<forall>q\<in>set L. existe (fs w1) q)
        \<and> filter (elegible_watchdog w1) L = filter (elegible_watchdog w) L"
    proof -
      fix w1 er
      assume r: "mover_y_organizar p w = Inr w1 \<or> mover_y_organizar p w = Inl (er, w1)"
      from mover_campos [OF r] have h: "FICHERO_LOG w1 = FICHERO_LOG w"
        by (simp add: FICHERO_LOG_def CARPETA_DESCARGAS_def)
      have k: "\<forall>q\<in>set L. \<exists>n. buscar (fs w) q = Some n \<and> buscar (fs w1) q = Some n"
      proof
        fix q assume q: "q \<in> set L"
        with pL have qp: "q \<noteq> p" by auto
        from q exL obtain n where n: "buscar (fs w) q = Some n" by (auto simp: existe_def)
        from mover_conserva [OF nd r qp n] n
        show "\<exists>n. buscar (fs w) q = Some n \<and> buscar (fs w1) q = Some n" by blast
      qed
      then have "\<forall>q\<in>set L. existe (fs w1) q" by (auto simp: existe_def)
      moreover have "filter (elegible_watchdog w1) L = filter (elegible_watchdog w) L"
      proof (rule filter_cong [OF refl])
        fix q assume "q \<in> set L"
        with k obtain n where "buscar (fs w) q = Some n" "buscar (fs w1) q = Some n" by blast
        from is_file_buscar [OF this] h
        show "elegible_watchdog w1 q = elegible_watchdog w q"
          by (simp add: elegible_watchdog_def)
      qed
      ultimately show "(\<forall>q\<in>set L. existe (fs w1) q)
        \<and> filter (elegible_watchdog w1) L = filter (elegible_watchdog w) L" by simp
    qed
    show ?thesis
    proof (cases "mover_y_organizar p w")
      case (Inr w1)
      with False Cons.prems have r: "bucle_existentes L (w1, e + 1, m + 1) = (w', e', m')"
        by (simp add: paso_existentes_movido)
      from paso [of w1] Inr have "\<forall>q\<in>set L. existe (fs w1) q"
        and fl: "filter (elegible_watchdog w1) L = filter (elegible_watchdog w) L" by simp_all
      from Cons.IH [OF dL this(1) r] fl el show ?thesis by simp
    next
      case (Inl x)
      obtain er w1 where x: "x = (er, w1)" by (cases x)
      let ?w2 = "escribir_log (''ERROR al mover existente '' @ str_path p @ '': '' @ str_error er)
                     (imprimir (''[ERROR] No se pudo mover existente '' @ str_path p
                                  @ '': '' @ str_error er) w1)"
      from False Cons.prems Inl x have r: "bucle_existentes L (?w2, e + 1, m) = (w', e', m')"
        by (simp add: paso_existentes_error)
      from paso [of w1 er] Inl x have ex1: "\<forall>q\<in>set L. existe (fs w1) q"
        and fl: "filter (elegible_watchdog w1) L = filter (elegible_watchdog w) L" by simp_all
      from ex1 have ex2: "\<forall>q\<in>set L. existe (fs ?w2) q" by simp
      have "elegible_watchdog ?w2 = elegible_watchdog w1"
        by (simp add: elegible_watchdog_def fun_eq_iff)
      with Cons.IH [OF dL ex2 r] fl el show ?thesis by simp
    qed
  qed
qed

text \<open>
  Claim C8, amended. The watch-mode initial sweep isolates failures: the number of files
  it attempts is the number of listed regular files that are neither the log nor
  temporary, whatever failed on the way; a relocation that raises is printed and logged
  as \<open>ERROR al mover existente\<close> and the loop goes on with the rest of the listing from
  the world the failure left. The command-line sweep has no handler: an error raised for
  one file ends the loop with that error.
\<close>

theorem watch_sweep_isolates_failures:
  "(procesar_archivos_existentes w = (w', encontrados, movidos) \<longrightarrow>
      encontrados = length (filter (elegible_watchdog w) (iterdir (fs w) (CARPETA_DESCARGAS w)))
      \<and> movidos \<le> encontrados)
   \<and> (\<not> is_dir (fs w) p \<and> p \<noteq> FICHERO_LOG w \<and> \<not> es_temporal p
        \<and> mover_y_organizar p w = Inl (er, w1) \<longrightarrow>
      bucle_existentes (p # resto) (w, e, m) =
        bucle_existentes resto
          (escribir_log (''ERROR al mover existente '' @ str_path p @ '': '' @ str_error er)
             (imprimir (''[ERROR] No se pudo mover existente '' @ str_path p
                          @ '': '' @ str_error er) w1),
           e + 1, m))
   \<and> (is_file (fs w) p \<and> \<not> es_temporal p \<and> cuerpo_organizar carpeta dry_run p w = Inl x \<longrightarrow>
      bucle_organizar carpeta dry_run (p # resto) (w, e, m) = Inl x)"
proof (intro conjI impI)
  assume a: "procesar_archivos_existentes w = (w', encontrados, movidos)"
  let ?w0 = "imprimir (CHR 0x0A # ''[INICIO] Procesando archivos existentes en Descargas...'') w"
  from a obtain wa where
    b: "bucle_existentes (iterdir (fs w) (CARPETA_DESCARGAS w)) (?w0, 0, 0) = (wa, encontrados, movidos)"
    by (auto simp: procesar_archivos_existentes_def Let_def split: prod.splits)
  have ex: "\<forall>q\<in>set (iterdir (fs w) (CARPETA_DESCARGAS w)). existe (fs ?w0) q"
    by (simp add: iterdir_existe)
  have "elegible_watchdog ?w0 = elegible_watchdog w"
    by (simp add: elegible_watchdog_def fun_eq_iff)
  with bucle_existentes_encontrados [OF iterdir_distinct ex b]
  show "encontrados = length (filter (elegible_watchdog w) (iterdir (fs w) (CARPETA_DESCARGAS w)))"
    by simp
  from bucle_existentes_contadores [OF b] show "movidos \<le> encontrados" by simp
next
  assume "\<not> is_dir (fs w) p \<and> p \<noteq> FICHERO_LOG w \<and> \<not> es_temporal p
        \<and> mover_y_organizar p w = Inl (er, w1)"
  then show "bucle_existentes (p # resto) (w, e, m) =
        bucle_existentes resto
          (escribir_log (''ERROR al mover existente '' @ str_path p @ '': '' @ str_error er)
             (imprimir (''[ERROR] No se pudo mover existente '' @ str_path p
                          @ '': '' @ str_error er) w1),
           e + 1, m)"
    by (simp add: paso_existentes_error)
next
  assume "is_file (fs w) p \<and> \<not> es_temporal p \<and> cuerpo_organizar carpeta dry_run p w = Inl x"
  then show "bucle_organizar carpeta dry_run (p # resto) (w, e, m) = Inl x"
    by (simp add: paso_organizar_cuerpo)
qed

text \<open>
  Claim C8 as stated fails for the command-line sweep. With a locked \<open>report.pdf\<close> listed
  before \<open>photo.jpg\<close>, the command ends with \<open>PermissionError\<close>; \<open>photo.jpg\<close> is still in
  the downloads folder and nothing is at its destination.
\<close>

theorem cli_sweep_aborts_counterexample:
  "isl (organizar DESCARGAS False False mundo_bloqueado)
   \<and> fst (projl (organizar DESCARGAS False False mundo_bloqueado)) = PermissionError
   \<and> is_file (fs (snd (projl (organizar DESCARGAS False False mundo_bloqueado))))
       (DESCARGAS @ [''photo.jpg''])
   \<and> \<not> existe (fs (snd (projl (organizar DESCARGAS False False mundo_bloqueado))))
       (QUINCENA_FOTO @ [''photo.jpg''])"
  by code_simp

theorem watch_sweep_isolates_failures_witness:
  "procesar_archivos_existentes mundo_bloqueado
     = (fst (procesar_archivos_existentes mundo_bloqueado), 2, 1)
   \<and> length (filter (elegible_watchdog mundo_bloqueado)
        (iterdir (fs mundo_bloqueado) (CARPETA_DESCARGAS mundo_bloqueado))) = 2
   \<and> is_file (fs (fst (procesar_archivos_existentes mundo_bloqueado)))
        (QUINCENA_FOTO @ [''photo.jpg''])
   \<and> mover_y_organizar (DESCARGAS @ [''report.pdf'']) mundo_bloqueado
        = Inl (PermissionError,
               snd (projl (mover_y_organizar (DESCARGAS @ [''report.pdf'']) mundo_bloqueado)))
   \<and> bucle_organizar DESCARGAS False [DESCARGAS @ [''report.pdf''], DESCARGAS @ [''photo.jpg'']]
        (mundo_bloqueado, 0, 0)
        = Inl (projl (cuerpo_organizar DESCARGAS False (DESCARGAS @ [''report.pdf''])
                        mundo_bloqueado))"
proof -
  let ?p = "DESCARGAS @ [''report.pdf'']"
  have "snd (procesar_archivos_existentes mundo_bloqueado) = (2, 1)" by code_simp
  then have a: "procesar_archivos_existentes mundo_bloqueado
     = (fst (procesar_archivos_existentes mundo_bloqueado), 2, 1)"
    by (metis prod.collapse)
  have b: "is_file (fs (fst (procesar_archivos_existentes mundo_bloqueado)))
        (QUINCENA_FOTO @ [''photo.jpg''])"
    by code_simp
  have c: "\<not> is_dir (fs mundo_bloqueado) ?p \<and> ?p \<noteq> FICHERO_LOG mundo_bloqueado
           \<and> \<not> es_temporal ?p \<and> is_file (fs mundo_bloqueado) ?p"
    by code_simp
  have "isl (mover_y_organizar ?p mundo_bloqueado)
        \<and> fst (projl (mover_y_organizar ?p mundo_bloqueado)) = PermissionError"
    by code_simp
  then have d: "mover_y_organizar ?p mundo_bloqueado
        = Inl (PermissionError, snd (projl (mover_y_organizar ?p mundo_bloqueado)))"
    by (metis prod.collapse sum.collapse(1))
  have "isl (cuerpo_organizar DESCARGAS False ?p mundo_bloqueado)"
    by code_simp
  then have e: "cuerpo_organizar DESCARGAS False ?p mundo_bloqueado
        = Inl (projl (cuerpo_organizar DESCARGAS False ?p mundo_bloqueado))"
    by simp
  from watch_sweep_isolates_failures
         [where w = mundo_bloqueado and w' = "fst (procesar_archivos_existentes mundo_bloqueado)"
            and encontrados = 2 and movidos = 1 and p = ?p and er = PermissionError
            and ?w1.0 = "snd (projl (mover_y_organizar ?p mundo_bloqueado))"
            and carpeta = DESCARGAS and dry_run = False
            and x = "projl (cuerpo_organizar DESCARGAS False ?p mundo_bloqueado)"
            and resto = "[DESCARGAS @ [''photo.jpg'']]" and e = 0 and m = 0]
    a b c d e
  show ?thesis by simp
qed

section \<open>The log\<close>

text \<open>
  Claim C7, amended. In watch mode a successful relocation of a regular file appends
  exactly one line to a writable log, \<open>[timestamp] MOVER source -> destination\<close>, where
  the destination is the path that holds the file afterwards. The command-line script
  keeps no log: whatever its flags and however it ends, the log is as it was.
\<close>

theorem watch_relocation_logs_once:
  "(buscar (fs w) src = Some (Archivo f c b) \<and> log_ok w \<and> mover_y_organizar src w = Inr w' \<longrightarrow>
      (\<exists>dst. registro w' = registro w @ [''['' @ reloj w (lecturas w) @ ''] '' @ ''MOVER ''
                               @ str_path src @ '' -> '' @ str_path dst]
             \<and> buscar (fs w') dst = Some (Archivo f c b)))
   \<and> (organizar carpeta recursivo dry_run w = Inr (v', t, m)
        \<or> organizar carpeta recursivo dry_run w = Inl (e, v') \<longrightarrow>
      registro v' = registro w)"
proof (intro conjI impI)
  assume a: "buscar (fs w) src = Some (Archivo f c b) \<and> log_ok w \<and> mover_y_organizar src w = Inr w'"
  then have src: "buscar (fs w) src = Some (Archivo f c b)" by simp
  from a obtain cd s1 where
    mk: "mkdir_parents (hoy w) (fs w) cd = Inr s1" and
    w': "w' = (lineas_mover src (destino_sin_colision s1 cd src) (w\<lparr>fs := s1\<rparr>))
                \<lparr>fs := os_rename s1 src (destino_sin_colision s1 cd src)\<rparr>"
    by (auto simp: mover_y_organizar_archivo [OF src] split: option.splits sum.splits if_splits)
  from w' a have "registro w' = registro w @ [''['' @ reloj w (lecturas w) @ ''] '' @ ''MOVER ''
                               @ str_path src @ '' -> '' @ str_path (destino_sin_colision s1 cd src)]"
    by (simp add: lineas_mover_def escribir_log_def imprimir_def)
  moreover from w' have "buscar (fs w') (destino_sin_colision s1 cd src) = Some (Archivo f c b)"
    by (simp add: reubicar_buscar [OF src mk])
  ultimately show "\<exists>dst. registro w' = registro w @ [''['' @ reloj w (lecturas w) @ ''] '' @ ''MOVER ''
                               @ str_path src @ '' -> '' @ str_path dst]
             \<and> buscar (fs w') dst = Some (Archivo f c b)"
    by blast
next
  assume o: "organizar carpeta recursivo dry_run w = Inr (v', t, m)
        \<or> organizar carpeta recursivo dry_run w = Inl (e, v')"
  from organizar_casos [OF o] show "registro v' = registro w"
  proof
    assume "\<not> is_dir (fs w) carpeta \<and> v' = w"
    then show ?thesis by simp
  next
    assume "\<exists>w2 w3 t3 m3. fs w2 = fs w \<and> registro w2 = registro w
             \<and> (bucle_iterar_archivos carpeta recursivo dry_run (w2, 0, 0) = Inr (w3, t3, m3)
                \<or> bucle_iterar_archivos carpeta recursivo dry_run (w2, 0, 0) = Inl (e, w3))
             \<and> fs v' = fs w3 \<and> registro v' = registro w3"
    then obtain w2 w3 t3 m3 where
      r2: "registro w2 = registro w" and
      l: "bucle_iterar_archivos carpeta recursivo dry_run (w2, 0, 0) = Inr (w3, t3, m3)
          \<or> bucle_iterar_archivos carpeta recursivo dry_run (w2, 0, 0) = Inl (e, w3)" and
      r3: "registro v' = registro w3"
      by blast
    from bucle_iterar_archivos_registro [OF l] r2 r3 show ?thesis by simp
  qed
qed

text \<open>
  Claim C7 as stated fails: a command-line run without \<open>--dry-run\<close> moves two files and
  the (writable) log stays empty.
\<close>

theorem cli_moves_without_log_counterexample:
  "\<not> isl (organizar DESCARGAS False False mundo_descargas)
   \<and> snd (projr (organizar DESCARGAS False False mundo_descargas)) = (2, 2)
   \<and> log_ok mundo_descargas
   \<and> registro (fst (projr (organizar DESCARGAS False False mundo_descargas))) = []"
  by code_simp

theorem watch_relocation_logs_once_witness:
  "buscar (fs mundo_descargas) (DESCARGAS @ [''report.pdf''])
     = Some (Archivo fecha_ejemplo ''informe'' False)
   \<and> log_ok mundo_descargas
   \<and> (\<exists>dst. registro (projr (mover_y_organizar (DESCARGAS @ [''report.pdf'']) mundo_descargas))
              = registro mundo_descargas
                @ [''['' @ reloj mundo_descargas (lecturas mundo_descargas) @ ''] '' @ ''MOVER ''
                     @ str_path (DESCARGAS @ [''report.pdf'']) @ '' -> '' @ str_path dst]
            \<and> buscar (fs (projr (mover_y_organizar (DESCARGAS @ [''report.pdf'']) mundo_descargas)))
                 dst = Some (Archivo fecha_ejemplo ''informe'' False))
   \<and> registro (projr (mover_y_organizar (DESCARGAS @ [''report.pdf'']) mundo_descargas))
       = [''[2024-03-11 09:00:00] MOVER /home/Downloads/report.pdf -> /home/Downloads/documentos/2024/marzo/1-15/report.pdf'']
   \<and> registro (fst (projr (organizar DESCARGAS False False mundo_descargas)))
       = registro mundo_descargas"
proof -
  let ?src = "DESCARGAS @ [''report.pdf'']"
  have a: "buscar (fs mundo_descargas) ?src = Some (Archivo fecha_ejemplo ''informe'' False)"
    by code_simp
  have b: "log_ok mundo_descargas" by code_simp
  have "\<not> isl (mover_y_organizar ?src mundo_descargas)" by code_simp
  then have c: "mover_y_organizar ?src mundo_descargas
                  = Inr (projr (mover_y_organizar ?src mundo_descargas))"
    by simp
  have d: "registro (projr (mover_y_organizar ?src mundo_descargas))
       = [''[2024-03-11 09:00:00] MOVER /home/Downloads/report.pdf -> /home/Downloads/documentos/2024/marzo/1-15/report.pdf'']"
    by code_simp
  have "\<not> isl (organizar DESCARGAS False False mundo_descargas)
        \<and> snd (projr (organizar DESCARGAS False False mundo_descargas)) = (2, 2)"
    by code_simp
  then have e: "organizar DESCARGAS False False mundo_descargas
     = Inr (fst (projr (organizar DESCARGAS False False mundo_descargas)), 2, 2)"
    by (metis prod.collapse sum.collapse(2))
  from watch_relocation_logs_once
         [where w = mundo_descargas and src = ?src and f = fecha_ejemplo and c = "''informe''"
            and b = False and w' = "projr (mover_y_organizar ?src mundo_descargas)"
            and carpeta = DESCARGAS and recursivo = False and dry_run = False
            and v' = "fst (projr (organizar DESCARGAS False False mundo_descargas))"
            and t = 2 and m = 2]
    a b c d e
  show ?thesis by blast
qed

section \<open>Dry run\<close>

text \<open>
  Claim C4 against the code. \<open>organizar\<close> calls \<open>mkdir\<close> for the destination directory
  before it looks at \<open>dry_run\<close>. A dry run over a downloads folder with no category
  directories leaves \<open>report.pdf\<close> where it is, and yet afterwards
  \<open>documentos/2024/marzo/1-15\<close> exists: the filesystem has changed.
\<close>

theorem dry_run_creates_directories:
  "\<not> isl (organizar DESCARGAS False True mundo_descargas)
   \<and> \<not> existe (fs mundo_descargas) (DESCARGAS @ [''documentos''])
   \<and> is_dir (fs (fst (projr (organizar DESCARGAS False True mundo_descargas))))
       (DESCARGAS @ [''documentos'', ''2024'', ''marzo'', ''1-15''])
   \<and> is_file (fs (fst (projr (organizar DESCARGAS False True mundo_descargas))))
       (DESCARGAS @ [''report.pdf''])
   \<and> fs (fst (projr (organizar DESCARGAS False True mundo_descargas))) \<noteq> fs mundo_descargas"
  by code_simp

end
